theory Spec2Isabelle
  imports Main "HOL-Library.Word" "HOL-Library.AList"
begin

section \<open>JavaScript strings and values\<close>

text \<open>
  A JavaScript string is a sequence of 16-bit code units. \<open>js\<close> reads an ASCII literal as
  such a sequence, so that the literals of \<^verbatim>\<open>beseech.js\<close> can be written as they are
  in the source.
\<close>

type_synonym jsstring = "16 word list"

definition js :: "string \<Rightarrow> jsstring" where
  "js s = map of_char s"

abbreviation LF :: "16 word" where "LF \<equiv> 0x0A"
abbreviation CR :: "16 word" where "CR \<equiv> 0x0D"

text \<open>
  \<^verbatim>\<open>s.indexOf(c)\<close> for a one-character needle: the position of the first occurrence,
  or \<open>-1\<close>.
\<close>

definition indexOf :: "jsstring \<Rightarrow> 16 word \<Rightarrow> int" where
  "indexOf s c = (if c \<in> set s then int (length (takeWhile (\<lambda>x. x \<noteq> c) s)) else - 1)"

text \<open>
  \<^verbatim>\<open>s.substr(start, length)\<close> (ECMAScript B.2.3): a negative start counts from the end,
  a missing length (\<open>None\<close>) means "to the end", a negative length gives the empty string.
\<close>

definition substr :: "jsstring \<Rightarrow> int \<Rightarrow> int option \<Rightarrow> jsstring" where
  "substr s start len =
     (let size = int (length s);
          st = (if 0 \<le> start then start else max (size + start) 0);
          n = (case len of None \<Rightarrow> size - st | Some l \<Rightarrow> min (max l 0) (size - st))
      in if n \<le> 0 then [] else take (nat n) (drop (nat st) s))"

text \<open>
  \<^verbatim>\<open>s.trim()\<close> removes leading and trailing WhiteSpace and LineTerminator code units
  (ECMAScript 5.1, 7.2 and 7.3, with the space separators of Unicode 5.1).
\<close>

definition isWhiteSpace :: "16 word \<Rightarrow> bool" where
  "isWhiteSpace c \<longleftrightarrow>
     c \<in> set [0x09, 0x0A, 0x0B, 0x0C, 0x0D, 0x20, 0xA0, 0x1680, 0x180E,
              0x2000, 0x2001, 0x2002, 0x2003, 0x2004, 0x2005, 0x2006, 0x2007, 0x2008,
              0x2009, 0x200A, 0x2028, 0x2029, 0x202F, 0x205F, 0x3000, 0xFEFF]"

definition trim :: "jsstring \<Rightarrow> jsstring" where
  "trim s = rev (dropWhile isWhiteSpace (rev (dropWhile isWhiteSpace s)))"

text \<open>\<^verbatim>\<open>s.split('.')\<close>: never empty, \<^verbatim>\<open>''.split('.')\<close> is \<^verbatim>\<open>['']\<close>.\<close>

fun split_on :: "'a \<Rightarrow> 'a list \<Rightarrow> 'a list list" where
  "split_on c [] = [[]]"
| "split_on c (x # xs) =
     (if x = c then [] # split_on c xs
      else (case split_on c xs of [] \<Rightarrow> [[x]] | y # ys \<Rightarrow> (x # y) # ys))"

text \<open>
  The \<^verbatim>\<open>colors\<close> package adds the getters \<^verbatim>\<open>grey\<close> and \<^verbatim>\<open>yellow\<close> to strings: the text
  between two ANSI escape sequences.
\<close>

definition grey :: "jsstring \<Rightarrow> jsstring" where
  "grey s = 0x1B # js ''[90m'' @ s @ 0x1B # js ''[39m''"

definition yellow :: "jsstring \<Rightarrow> jsstring" where
  "yellow s = 0x1B # js ''[33m'' @ s @ 0x1B # js ''[39m''"

text \<open>
  The values a target object holds: \<^verbatim>\<open>undefined\<close>, \<^verbatim>\<open>null\<close>, booleans, strings and
  plain objects. An object is the list of its own properties in insertion order; sub-objects
  are not shared.
\<close>

datatype jsval = Undefined | Null | Bool bool | Str jsstring | Obj "(jsstring \<times> jsval) list"

type_synonym jsobj = "(jsstring \<times> jsval) list"

fun truthy :: "jsval \<Rightarrow> bool" where
  "truthy Undefined = False"
| "truthy Null = False"
| "truthy (Bool b) = b"
| "truthy (Str s) = (s \<noteq> [])"
| "truthy (Obj kvs) = True"

definition prop_get :: "jsobj \<Rightarrow> jsstring \<Rightarrow> jsval" where
  "prop_get kvs k = (case map_of kvs k of None \<Rightarrow> Undefined | Some v \<Rightarrow> v)"

text \<open>
  A property that an object does not have itself is looked up in its prototype. Every
  plain object inherits the members of \<^verbatim>\<open>Object.prototype\<close>, which is taken to hold its
  standard members and nothing else, and answers to \<^verbatim>\<open>__proto__\<close> with that prototype.
  These members are functions and built-in objects: they are defined and truthy, and what a
  program does with them is beyond this model.
\<close>

definition proto :: jsstring where
  "proto = js ''__proto__''"

definition object_prototype_names :: "jsstring list" where
  "object_prototype_names =
     [js ''constructor'', js ''toString'', js ''toLocaleString'', js ''valueOf'',
      js ''hasOwnProperty'', js ''isPrototypeOf'', js ''propertyIsEnumerable'',
      js ''__defineGetter__'', js ''__defineSetter__'', js ''__lookupGetter__'',
      js ''__lookupSetter__'']"

definition inherited :: "jsstring \<Rightarrow> bool" where
  "inherited key \<longleftrightarrow> key = proto \<or> key \<in> set object_prototype_names"

text \<open>
  What an access to an object gives: a value, a thrown exception, or a step beyond the
  model (into a built-in object, or into the members of a primitive).
\<close>

datatype exn = TypeError

datatype 'a outcome = Done 'a | Throw exn | Beyond

text \<open>
  \<^verbatim>\<open>last[key]\<close>: an own property, else an inherited member, else \<^verbatim>\<open>undefined\<close>; throws on
  \<^verbatim>\<open>undefined\<close> and \<^verbatim>\<open>null\<close>.
\<close>

fun read_prop :: "jsval \<Rightarrow> jsstring \<Rightarrow> jsval outcome" where
  "read_prop (Obj kvs) key =
     (if key = proto then Beyond
      else case map_of kvs key of
             Some v \<Rightarrow> Done v
           | None \<Rightarrow> if inherited key then Beyond else Done Undefined)"
| "read_prop Undefined key = Throw TypeError"
| "read_prop Null key = Throw TypeError"
| "read_prop (Bool b) key = Beyond"
| "read_prop (Str s) key = Beyond"

text \<open>
  \<^verbatim>\<open>last[key] = value\<close>: creates or replaces an own property; throws on \<^verbatim>\<open>undefined\<close>
  and \<^verbatim>\<open>null\<close>; on a primitive the assignment is dropped (the file is not in strict mode).
  Assigning to \<^verbatim>\<open>__proto__\<close> changes the prototype when the value is an object or \<^verbatim>\<open>null\<close>
  and is dropped otherwise.
\<close>

fun assign :: "jsval \<Rightarrow> jsstring \<Rightarrow> jsval \<Rightarrow> jsval outcome" where
  "assign (Obj kvs) key v =
     (if key = proto then (case v of Obj x \<Rightarrow> Beyond | Null \<Rightarrow> Beyond | _ \<Rightarrow> Done (Obj kvs))
      else Done (Obj (AList.update key v kvs)))"
| "assign Undefined key v = Throw TypeError"
| "assign Null key v = Throw TypeError"
| "assign (Bool b) key v = Done (Bool b)"
| "assign (Str s) key v = Done (Str s)"

text \<open>
  \<^verbatim>\<open>typeof obj[prop] === 'undefined'\<close> on a plain object.
\<close>

definition typeof_undefined :: "jsobj \<Rightarrow> jsstring \<Rightarrow> bool" where
  "typeof_undefined obj key \<longleftrightarrow>
     key \<noteq> proto \<and> (case map_of obj key of Some v \<Rightarrow> v = Undefined | None \<Rightarrow> \<not> inherited key)"

text \<open>
  \<^verbatim>\<open>Object.keys\<close> lists the keys that are array indices first, in ascending order, and
  then the other keys in the order of their insertion. An array index is the decimal
  numeral, without leading zeros, of a number below \<open>2\<^sup>3\<^sup>2 - 1\<close>.
\<close>

definition decimal :: "jsstring \<Rightarrow> nat" where
  "decimal s = foldl (\<lambda>n c. 10 * n + (unat c - 48)) 0 s"

definition array_index :: "jsstring \<Rightarrow> bool" where
  "array_index s \<longleftrightarrow>
     s \<noteq> [] \<and> list_all (\<lambda>c. 0x30 \<le> c \<and> c \<le> 0x39) s \<and> (length s = 1 \<or> take 1 s \<noteq> [0x30])
     \<and> decimal s < 4294967295"

definition object_keys :: "(jsstring \<times> 'v) list \<Rightarrow> jsstring list" where
  "object_keys kvs =
     sort_key decimal (filter array_index (map fst kvs))
     @ filter (\<lambda>k. \<not> array_index k) (map fst kvs)"

text \<open>
  \<^verbatim>\<open>result[name] = line\<close> on the result record, whose values are strings: an own
  property, but for \<^verbatim>\<open>__proto__\<close>, where the assignment of a string is dropped.
\<close>

definition store :: "jsstring \<Rightarrow> jsstring \<Rightarrow> (jsstring \<times> jsstring) list \<Rightarrow> (jsstring \<times> jsstring) list" where
  "store key line r = (if key = proto then r else AList.update key line r)"

section \<open>Field descriptors, callbacks and the session\<close>

text \<open>
  A validator is a pattern (an object with a \<^verbatim>\<open>test\<close> method) or a predicate; both are
  modelled as pure functions of the line.
\<close>

datatype validator = Pattern "jsstring \<Rightarrow> bool" | Predicate "jsstring \<Rightarrow> bool"

record descriptor =
  name :: "jsstring option"
  message :: "jsstring option"
  default :: "jsstring option"
  hidden :: bool
  validator :: "validator option"
  warning :: "jsstring option"
  help_lines :: "jsstring list option"

text \<open>What \<^verbatim>\<open>get\<close> and \<^verbatim>\<open>getInput\<close> prompt for: a bare string or a descriptor.\<close>

datatype field = Bare jsstring | Desc descriptor

datatype msg = One field | Many "field list"

text \<open>A string attribute is truthy when it is present and not empty.\<close>

fun truthy_str :: "jsstring option \<Rightarrow> jsstring option" where
  "truthy_str None = None"
| "truthy_str (Some s) = (if s = [] then None else Some s)"

datatype error = StreamError nat

type_synonym result_record = "(jsstring \<times> jsstring) list"

text \<open>
  The callbacks of the source are closures. Each closure is a constructor holding what it
  captures; \<open>LUser\<close>, \<open>RUser\<close> and \<open>OUser\<close> are callbacks of the caller, told apart by a
  tag, whose invocations are recorded in \<open>calls\<close>.
  \<^item> \<open>LGetInput prop callback\<close>: the function passed to the reader in \<^verbatim>\<open>getInput\<close>;
  \<^item> \<open>LGetItem fid target callback\<close>: the function passed to \<^verbatim>\<open>getInput\<close> by the
    iterator of \<^verbatim>\<open>get\<close>, for the \<^verbatim>\<open>async.forEachSeries\<close> run \<open>fid\<close>;
  \<^item> \<open>RAddProps obj callback\<close>: the function passed to \<^verbatim>\<open>get\<close> in \<^verbatim>\<open>addProperties\<close>.
\<close>

datatype obj_args = ObjOnly jsobj | ErrOnly error | NullObj jsobj

datatype obj_cont = OUser nat

datatype res_cont = RUser nat | RAddProps jsobj obj_cont

datatype line_cont = LUser nat | LGetInput field line_cont | LGetItem nat field res_cont

datatype call =
    LineCall nat "error + jsstring"
  | ResCall nat "error + result_record"
  | ObjCall nat obj_args

datatype mode = Cooked | Hidden

text \<open>The variables \<^verbatim>\<open>value\<close> and \<^verbatim>\<open>buffer\<close> of one reader call, and its callback.\<close>

record accumulator =
  acc_kind :: mode
  acc_value :: jsstring
  acc_buffer :: jsstring
  acc_callback :: line_cont

text \<open>
  \<^verbatim>\<open>get\<close> iterates with \<^verbatim>\<open>async.forEachSeries\<close>. The \<^verbatim>\<open>async\<close> package is not part of
  the repository; the iteration is modelled as the package has it: the iterator is called
  on \<^verbatim>\<open>arr[completed]\<close>; its continuation, called with an error, calls the final callback
  and replaces it by the empty function, and called without one, counts the item as
  completed and either calls the final callback (when \<^verbatim>\<open>completed === arr.length\<close>) or
  goes on with the next item; on an empty list the final callback is called at once.

  A frame holds the variables of one such run with the \<^verbatim>\<open>result\<close> object of the
  \<^verbatim>\<open>get\<close> that started it; \<open>live\<close> is false once the run has replaced its final
  callback by the empty function.
\<close>

record frame =
  arr :: "field list"
  completed :: nat
  live :: bool
  result :: result_record

datatype in_stream = ProcessStdin | InStream nat
datatype out_stream = ProcessStdout | OutStream nat
datatype out_event = Write jsstring | Flush
datatype level = Help | Input | ErrorLevel
datatype halt = Exit nat | Uncaught exn | UncaughtError error | Killed | Unmodelled
datatype handle = Beseech

text \<open>
  The module's variables (\<open>started\<close>, \<open>paused\<close>, \<open>stdin\<close>, \<open>stdout\<close>,
  \<open>properties\<close>, and \<open>val\<close>, which \<^verbatim>\<open>readLine\<close> assigns without declaring it) and what
  they act on: the bound input stream (flow, encoding, listeners), what was written to the
  bound output stream, the terminal mode, the logger's lines, and whether the process
  still runs. \<open>halted\<close> is \<open>Some Unmodelled\<close> when the program has stepped beyond the
  model: it goes on, but the model does not say how.
\<close>

record world =
  started :: bool
  paused :: bool
  stdin :: "in_stream option"
  stdout :: "out_stream option"
  properties :: "(jsstring \<times> field) list"
  val :: "jsstring option"
  sigint_handler :: bool
  in_flowing :: bool
  in_encoding :: "jsstring option"
  data_listeners :: "nat list"
  error_listeners :: "nat list"
  reads :: "accumulator list"
  frames :: "frame list"
  out :: "out_event list"
  logged :: "(level \<times> jsstring) list"
  rawMode :: bool
  calls :: "call list"
  halted :: "halt option"

section \<open>Session lifecycle\<close>

text \<open>
  \<^verbatim>\<open>start\<close>, \<^verbatim>\<open>pause\<close> and \<^verbatim>\<open>resume\<close> return the module (\<open>Some Beseech\<close>) or, on
  their early \<^verbatim>\<open>return;\<close>, \<^verbatim>\<open>undefined\<close> (\<open>None\<close>). A missing stream argument is
  replaced by the standard stream; \<^verbatim>\<open>process.openStdin()\<close> also resumes it.
\<close>

definition start :: "in_stream option \<Rightarrow> out_stream option \<Rightarrow> world \<Rightarrow> handle option \<times> world" where
  "start inStream outStream w =
     (if started w then (None, w)
      else (Some Beseech,
            w\<lparr>stdin := Some (case inStream of Some s \<Rightarrow> s | None \<Rightarrow> ProcessStdin),
              in_flowing := (case inStream of Some s \<Rightarrow> in_flowing w | None \<Rightarrow> True),
              stdout := Some (case outStream of Some s \<Rightarrow> s | None \<Rightarrow> ProcessStdout),
              sigint_handler := True,
              started := True\<rparr>))"

definition pause :: "world \<Rightarrow> handle option \<times> world" where
  "pause w =
     (if \<not> started w \<or> paused w then (None, w)
      else (Some Beseech, w\<lparr>in_flowing := False, paused := True\<rparr>))"

definition resume :: "world \<Rightarrow> handle option \<times> world" where
  "resume w =
     (if \<not> started w \<or> \<not> paused w then (None, w)
      else (Some Beseech, w\<lparr>in_flowing := True, paused := False\<rparr>))"

text \<open>\<^verbatim>\<open>stdout.write(s)\<close>: a \<^verbatim>\<open>TypeError\<close> while \<^verbatim>\<open>stdout\<close> is still undefined.\<close>

definition stdout_write :: "jsstring \<Rightarrow> world \<Rightarrow> world" where
  "stdout_write s w =
     (case stdout w of
        None \<Rightarrow> w\<lparr>halted := Some (Uncaught TypeError)\<rparr>
      | Some _ \<Rightarrow> w\<lparr>out := out w @ [Write s]\<rparr>)"

definition logger :: "level \<Rightarrow> jsstring \<Rightarrow> world \<Rightarrow> world" where
  "logger l s w = w\<lparr>logged := logged w @ [(l, s)]\<rparr>"

section \<open>The line readers\<close>

text \<open>
  \<^verbatim>\<open>readLine\<close> and \<^verbatim>\<open>readLineHidden\<close> create fresh \<^verbatim>\<open>value\<close> and \<^verbatim>\<open>buffer\<close>
  variables and attach an error listener (the callback itself) and a data listener to the
  input stream. A listener is named by the index of its accumulator in \<open>reads\<close>. While
  \<^verbatim>\<open>stdin\<close> is undefined, attaching throws.
\<close>

definition attach :: "mode \<Rightarrow> line_cont \<Rightarrow> world \<Rightarrow> world" where
  "attach m callback w =
     (let rid = length (reads w)
      in w\<lparr>error_listeners := error_listeners w @ [rid],
           data_listeners := data_listeners w @ [rid],
           reads := reads w @ [\<lparr>acc_kind = m, acc_value = [], acc_buffer = [],
                                  acc_callback = callback\<rparr>]\<rparr>)"

definition readLine :: "line_cont \<Rightarrow> world \<Rightarrow> world" where
  "readLine callback w =
     (let w1 = snd (resume w)
      in case stdin w1 of
           None \<Rightarrow> w1\<lparr>halted := Some (Uncaught TypeError)\<rparr>
         | Some _ \<Rightarrow> attach Cooked callback (w1\<lparr>in_encoding := Some (js ''utf8'')\<rparr>))"

definition readLineHidden :: "line_cont \<Rightarrow> world \<Rightarrow> world" where
  "readLineHidden callback w =
     (let w1 = snd (resume (w\<lparr>rawMode := True\<rparr>))
      in case stdin w1 of
           None \<Rightarrow> w1\<lparr>halted := Some (Uncaught TypeError)\<rparr>
         | Some _ \<Rightarrow> attach Hidden callback w1)"

section \<open>The prompt and validator loop\<close>

text \<open>\<^verbatim>\<open>prop.message || prop.name || prop\<close>: \<open>None\<close> when it is the descriptor itself.\<close>

fun display_name :: "field \<Rightarrow> jsstring option" where
  "display_name (Bare s) = Some s"
| "display_name (Desc d) =
     (case truthy_str (message d) of
        Some m \<Rightarrow> Some m
      | None \<Rightarrow> truthy_str (name d))"

text \<open>\<^verbatim>\<open>name.grey\<close>; an object has no such property, and prints as \<^verbatim>\<open>undefined\<close>.\<close>

definition name_grey :: "field \<Rightarrow> jsstring" where
  "name_grey prop = (case display_name prop of Some s \<Rightarrow> grey s | None \<Rightarrow> js ''undefined'')"

fun prop_default :: "field \<Rightarrow> jsstring option" where
  "prop_default (Bare s) = None"
| "prop_default (Desc d) = truthy_str (default d)"

fun prop_hidden :: "field \<Rightarrow> bool" where
  "prop_hidden (Bare s) = False"
| "prop_hidden (Desc d) = hidden d"

fun prop_validator :: "field \<Rightarrow> validator option" where
  "prop_validator (Bare s) = None"
| "prop_validator (Desc d) = validator d"

fun prop_warning :: "field \<Rightarrow> jsstring option" where
  "prop_warning (Bare s) = None"
| "prop_warning (Desc d) = truthy_str (warning d)"

fun prop_help :: "field \<Rightarrow> jsstring list" where
  "prop_help (Bare s) = []"
| "prop_help (Desc d) = (case help_lines d of None \<Rightarrow> [] | Some ls \<Rightarrow> ls)"

text \<open>
  The prompt: \<^verbatim>\<open>['prompt', ': ' + name.grey, ': '.grey]\<close>, with
  \<^verbatim>\<open>' (' + prop.default + ')'\<close> spliced in at index 2 when there is a default, joined.
\<close>

definition prompt_msg :: "field \<Rightarrow> jsstring" where
  "prompt_msg prop =
     js ''prompt'' @ js '': '' @ name_grey prop
     @ (case prop_default prop of None \<Rightarrow> [] | Some d \<Rightarrow> js '' ('' @ d @ js '')'')
     @ grey (js '': '')"

text \<open>
  \<^verbatim>\<open>prop.validator.test ? prop.validator.test(line) : prop.validator(line)\<close>
\<close>

fun valid :: "validator \<Rightarrow> jsstring \<Rightarrow> bool" where
  "valid (Pattern test) line = test line"
| "valid (Predicate f) line = f line"

definition getInput :: "field \<Rightarrow> line_cont \<Rightarrow> world \<Rightarrow> world" where
  "getInput prop callback w =
     (let w1 = foldl (\<lambda>w line. logger Help line w) w (prop_help prop);
          w2 = stdout_write (prompt_msg prop) w1
      in if halted w2 \<noteq> None then w2
         else (if prop_hidden prop then readLineHidden else readLine) (LGetInput prop callback) w2)"

text \<open>\<^verbatim>\<open>if (!line || line === '') { line = prop.default || line; }\<close>\<close>

definition with_default :: "field \<Rightarrow> jsstring \<Rightarrow> jsstring" where
  "with_default prop line =
     (if line = [] then (case prop_default prop of Some d \<Rightarrow> d | None \<Rightarrow> line) else line)"

definition accepts :: "field \<Rightarrow> jsstring \<Rightarrow> bool" where
  "accepts prop line = (case prop_validator prop of None \<Rightarrow> True | Some v \<Rightarrow> valid v line)"

text \<open>What the failing branch logs before it calls \<^verbatim>\<open>getInput\<close> again.\<close>

definition log_invalid :: "field \<Rightarrow> world \<Rightarrow> world" where
  "log_invalid prop w =
     (let w1 = logger ErrorLevel (js ''Invalid input for '' @ name_grey prop) w
      in case prop_warning prop of None \<Rightarrow> w1 | Some t \<Rightarrow> logger ErrorLevel t w1)"

section \<open>The batch driver and the result assembler\<close>

text \<open>\<^verbatim>\<open>target.name || target\<close> as a property key: an object prints as \<^verbatim>\<open>[object Object]\<close>.\<close>

fun result_key :: "field \<Rightarrow> jsstring" where
  "result_key (Bare s) = s"
| "result_key (Desc d) =
     (case truthy_str (name d) of Some n \<Rightarrow> n | None \<Rightarrow> js ''[object Object]'')"

text \<open>
  \<^verbatim>\<open>putNested (obj, path, value)\<close>: for every segment but the last, a falsy
  \<^verbatim>\<open>last[key]\<close> is replaced by a new object and \<^verbatim>\<open>last\<close> descends into it; the last
  segment is assigned. The function returns the updated \<^verbatim>\<open>obj\<close>.
\<close>

fun putNested :: "jsval \<Rightarrow> jsstring list \<Rightarrow> jsval \<Rightarrow> jsval outcome" where
  "putNested lastv [] v = assign lastv (js ''undefined'') v"
| "putNested lastv [key] v = assign lastv key v"
| "putNested lastv (key # k # path) v =
     (case read_prop lastv key of
        Throw e \<Rightarrow> Throw e
      | Beyond \<Rightarrow> Beyond
      | Done cur \<Rightarrow>
          (case (if \<not> truthy cur then assign lastv key (Obj []) else Done lastv) of
             Throw e \<Rightarrow> Throw e
           | Beyond \<Rightarrow> Beyond
           | Done lastv1 \<Rightarrow>
               (case read_prop lastv1 key of
                  Throw e \<Rightarrow> Throw e
                | Beyond \<Rightarrow> Beyond
                | Done child \<Rightarrow>
                    (case putNested child (k # path) v of
                       Throw e \<Rightarrow> Throw e
                     | Beyond \<Rightarrow> Beyond
                     | Done child' \<Rightarrow>
                         (case lastv1 of
                            Obj kvs \<Rightarrow> Done (Obj (AList.update key child' kvs))
                          | _ \<Rightarrow> Done lastv1)))))"

text \<open>
  \<^verbatim>\<open>Object.keys(results).forEach(function (key) { putNested(obj, key.split('.'), results[key]); })\<close>
\<close>

fun merge_keys :: "jsval \<Rightarrow> result_record \<Rightarrow> jsstring list \<Rightarrow> jsval outcome" where
  "merge_keys obj results [] = Done obj"
| "merge_keys obj results (key # keys) =
     (case putNested obj (split_on 0x2E key)
             (case map_of results key of Some line \<Rightarrow> Str line | None \<Rightarrow> Undefined) of
        Throw e \<Rightarrow> Throw e
      | Beyond \<Rightarrow> Beyond
      | Done obj' \<Rightarrow> merge_keys obj' results keys)"

definition merge :: "jsval \<Rightarrow> result_record \<Rightarrow> jsval outcome" where
  "merge obj results = merge_keys obj results (object_keys results)"

fun invoke_obj :: "obj_cont \<Rightarrow> obj_args \<Rightarrow> world \<Rightarrow> world" where
  "invoke_obj (OUser t) args w = w\<lparr>calls := calls w @ [ObjCall t args]\<rparr>"

text \<open>
  The callback of \<^verbatim>\<open>addProperties\<close> to \<^verbatim>\<open>get\<close>. \<^verbatim>\<open>get\<close> always passes a result
  object, so the branch \<^verbatim>\<open>else if (!results)\<close> is never taken.
\<close>

fun invoke_res :: "res_cont \<Rightarrow> error + result_record \<Rightarrow> world \<Rightarrow> world" where
  "invoke_res (RUser t) r w = w\<lparr>calls := calls w @ [ResCall t r]\<rparr>"
| "invoke_res (RAddProps obj callback) (Inl err) w = invoke_obj callback (ErrOnly err) w"
| "invoke_res (RAddProps obj callback) (Inr results) w =
     (case merge (Obj obj) results of
        Done (Obj obj') \<Rightarrow> invoke_obj callback (NullObj obj') w
      | Throw e \<Rightarrow> w\<lparr>halted := Some (Uncaught e)\<rparr>
      | _ \<Rightarrow> w\<lparr>halted := Some Unmodelled\<rparr>)"

text \<open>
  Calling a callback of the reader with \<^verbatim>\<open>(err)\<close> (\<open>Inl\<close>) or \<^verbatim>\<open>(null, line)\<close>
  (\<open>Inr\<close>).
  \<^item> The function of \<^verbatim>\<open>getInput\<close>: pass an error on; substitute the default; on a
    failed validation log and call \<^verbatim>\<open>getInput\<close> again; else log the line and pass it on.
  \<^item> The function of \<^verbatim>\<open>get\<close> with \<^verbatim>\<open>next\<close> of \<^verbatim>\<open>async.forEachSeries\<close>: on an
    error call the final callback and replace it by the empty function; else store the
    line under the field's name, count the field as completed, and either call the final
    callback (\<^verbatim>\<open>callback(null, result)\<close>) or prompt for \<^verbatim>\<open>arr[completed]\<close>.
\<close>

fun invoke_line :: "line_cont \<Rightarrow> error + jsstring \<Rightarrow> world \<Rightarrow> world" where
  "invoke_line (LUser t) r w = w\<lparr>calls := calls w @ [LineCall t r]\<rparr>"
| "invoke_line (LGetInput prop callback) (Inl err) w = invoke_line callback (Inl err) w"
| "invoke_line (LGetInput prop callback) (Inr line0) w =
     (let line = with_default prop line0
      in if \<not> accepts prop line then getInput prop callback (log_invalid prop w)
         else invoke_line callback (Inr line) (logger Input (yellow line) w))"
| "invoke_line (LGetItem fid target callback) (Inl err) w =
     (if length (frames w) \<le> fid \<or> \<not> live (frames w ! fid) then w
      else let w1 = invoke_res callback (Inl err) w
           in w1\<lparr>frames := (frames w1)[fid := (frames w1 ! fid)\<lparr>live := False\<rparr>]\<rparr>)"
| "invoke_line (LGetItem fid target callback) (Inr line) w =
     (if length (frames w) \<le> fid then w
      else let fr = frames w ! fid;
               fr1 = fr\<lparr>result := store (result_key target) line (result fr),
                        completed := completed fr + 1\<rparr>;
               w1 = w\<lparr>frames := (frames w)[fid := fr1]\<rparr>
           in if completed fr1 = length (arr fr1)
              then (if live fr1 then invoke_res callback (Inr (result fr1)) w1 else w1)
              else if completed fr1 < length (arr fr1)
              then getInput (arr fr1 ! completed fr1)
                     (LGetItem fid (arr fr1 ! completed fr1) callback) w1
              else w1\<lparr>halted := Some (Uncaught TypeError)\<rparr>)"

text \<open>
  \<^verbatim>\<open>beseech.properties[v] || v\<close> after lowercasing a string \<^verbatim>\<open>v\<close>. A descriptor used as
  a key prints as \<^verbatim>\<open>[object Object]\<close>. \<^verbatim>\<open>toLowerCase\<close> is a parameter of the model.
  The registry is a plain object: a name it does not hold itself but inherits stands for
  a built-in member, which is truthy and takes the place of the field (\<open>None\<close>: beyond the
  model).
\<close>

fun field_truthy :: "field \<Rightarrow> bool" where
  "field_truthy (Bare s) = (s \<noteq> [])"
| "field_truthy (Desc d) = True"

fun registry_key :: "field \<Rightarrow> jsstring" where
  "registry_key (Bare s) = s"
| "registry_key (Desc d) = js ''[object Object]''"

definition normalize ::
    "(jsstring \<Rightarrow> jsstring) \<Rightarrow> (jsstring \<times> field) list \<Rightarrow> field \<Rightarrow> field option" where
  "normalize toLowerCase props v =
     (let v1 = (case v of Bare s \<Rightarrow> Bare (toLowerCase s) | Desc d \<Rightarrow> Desc d)
      in if registry_key v1 = proto then None
         else case map_of props (registry_key v1) of
                None \<Rightarrow> if inherited (registry_key v1) then None else Some v1
              | Some p \<Rightarrow> Some (if field_truthy p then p else v1))"

text \<open>
  \<^verbatim>\<open>get\<close>. When a field's name stands for a built-in member, the model stops at once.
\<close>

definition get :: "(jsstring \<Rightarrow> jsstring) \<Rightarrow> msg \<Rightarrow> res_cont \<Rightarrow> world \<Rightarrow> world" where
  "get toLowerCase m callback w =
     (case those (map (normalize toLowerCase (properties w))
                   (case m of Many vs \<Rightarrow> vs | One v \<Rightarrow> [v])) of
        None \<Rightarrow> w\<lparr>halted := Some Unmodelled\<rparr>
      | Some [] \<Rightarrow> invoke_res callback (Inr []) w
      | Some (target # rest) \<Rightarrow>
          getInput target (LGetItem (length (frames w)) target callback)
            (w\<lparr>frames := frames w @ [\<lparr>arr = target # rest, completed = 0, live = True,
                                        result = []\<rparr>]\<rparr>))"

definition addProperties ::
    "(jsstring \<Rightarrow> jsstring) \<Rightarrow> jsobj \<Rightarrow> jsstring list \<Rightarrow> obj_cont \<Rightarrow> world \<Rightarrow> world" where
  "addProperties toLowerCase obj props callback w =
     (let props1 = filter (typeof_undefined obj) props
      in if props1 = [] then invoke_obj callback (ObjOnly obj) w
         else get toLowerCase (Many (map Bare props1)) (RAddProps obj callback) w)"

section \<open>What the listeners do with a chunk\<close>

text \<open>The data listener of \<^verbatim>\<open>readLine\<close>, for the accumulator \<open>rid\<close>.\<close>

definition readLine_data :: "nat \<Rightarrow> jsstring \<Rightarrow> world \<Rightarrow> world" where
  "readLine_data rid chunk w =
     (let r = reads w ! rid;
          value1 = filter (\<lambda>c. c \<noteq> CR) (acc_value r @ acc_buffer r @ chunk)
      in if indexOf value1 LF \<noteq> - 1
         then let value2 = (if value1 \<noteq> [LF] then dropWhile (\<lambda>c. c = LF) value1 else value1);
                  buffer1 = substr value2 (indexOf value2 LF) None;
                  w1 = w\<lparr>val := Some (substr value2 0 (Some (indexOf value2 LF)))\<rparr>;
                  w2 = snd (pause w1);
                  w3 = w2\<lparr>data_listeners := remove1 rid (data_listeners w2),
                          error_listeners := remove1 rid (error_listeners w2)\<rparr>;
                  value3 = trim value2;
                  w4 = w3\<lparr>reads := (reads w3)[rid := r\<lparr>acc_value := value3, acc_buffer := buffer1\<rparr>]\<rparr>
              in invoke_line (acc_callback r) (Inr value3) w4
         else w\<lparr>reads := (reads w)[rid := r\<lparr>acc_value := value1, acc_buffer := []\<rparr>]\<rparr>)"

text \<open>The data listener of \<^verbatim>\<open>readLineHidden\<close>: a switch on the whole chunk.\<close>

definition readLineHidden_data :: "nat \<Rightarrow> jsstring \<Rightarrow> world \<Rightarrow> world" where
  "readLineHidden_data rid c w =
     (let r = reads w ! rid
      in if c = [LF] \<or> c = [CR] \<or> c = [CR, LF] \<or> c = [0x04]
         then let w1 = w\<lparr>rawMode := False,
                          data_listeners := remove1 rid (data_listeners w),
                          error_listeners := remove1 rid (error_listeners w)\<rparr>;
                  value1 = trim (acc_value r);
                  w2 = w1\<lparr>reads := (reads w1)[rid := r\<lparr>acc_value := value1\<rparr>]\<rparr>;
                  w3 = stdout_write [LF] w2
              in if halted w3 \<noteq> None then w3
                 else invoke_line (acc_callback r) (Inr value1)
                        (snd (pause (w3\<lparr>out := out w3 @ [Flush]\<rparr>)))
         else if c = [0x03] \<or> c = [0x00]
         then let w1 = stdout_write [LF] w
              in if halted w1 \<noteq> None then w1 else w1\<lparr>halted := Some (Exit 1)\<rparr>
         else w\<lparr>reads := (reads w)[rid := r\<lparr>acc_value := acc_value r @ acc_buffer r @ c,
                                             acc_buffer := []\<rparr>]\<rparr>)"

definition data_listener :: "nat \<Rightarrow> jsstring \<Rightarrow> world \<Rightarrow> world" where
  "data_listener rid chunk w =
     (if length (reads w) \<le> rid then w
      else case acc_kind (reads w ! rid) of
             Cooked \<Rightarrow> readLine_data rid chunk w
           | Hidden \<Rightarrow> readLineHidden_data rid chunk w)"

definition error_listener :: "nat \<Rightarrow> error \<Rightarrow> world \<Rightarrow> world" where
  "error_listener rid err w =
     (if length (reads w) \<le> rid then w
      else invoke_line (acc_callback (reads w ! rid)) (Inl err) w)"

section \<open>Events\<close>

text \<open>
  The input stream emits a chunk or an error: every listener attached when the event is
  emitted is called, in the order of attachment, until the process stops. An error event
  nobody listens to is thrown. An interrupt signal runs the handler \<^verbatim>\<open>start\<close> installed.
\<close>

datatype event = Data jsstring | Error error | SIGINT

definition emit_data :: "jsstring \<Rightarrow> world \<Rightarrow> world" where
  "emit_data chunk w =
     foldl (\<lambda>w rid. if halted w = None then data_listener rid chunk w else w) w (data_listeners w)"

definition emit_error :: "error \<Rightarrow> world \<Rightarrow> world" where
  "emit_error err w =
     (if halted w \<noteq> None then w
      else if error_listeners w = [] then w\<lparr>halted := Some (UncaughtError err)\<rparr>
      else foldl (\<lambda>w rid. if halted w = None then error_listener rid err w else w) w
             (error_listeners w))"

definition sigint :: "world \<Rightarrow> world" where
  "sigint w =
     (if halted w \<noteq> None then w
      else if \<not> sigint_handler w then w\<lparr>halted := Some Killed\<rparr>
      else let w1 = stdout_write [LF] w
           in if halted w1 \<noteq> None then w1 else w1\<lparr>halted := Some (Exit 1)\<rparr>)"

fun deliver :: "event \<Rightarrow> world \<Rightarrow> world" where
  "deliver (Data chunk) w = emit_data chunk w"
| "deliver (Error err) w = emit_error err w"
| "deliver SIGINT w = sigint w"

definition run :: "event list \<Rightarrow> world \<Rightarrow> world" where
  "run evs w = foldl (\<lambda>w ev. deliver ev w) w evs"

text \<open>A fresh process: nothing started, no listener, nothing written.\<close>

definition world0 :: world where
  "world0 = \<lparr>started = False, paused = False, stdin = None, stdout = None, properties = [],
             val = None, sigint_handler = False, in_flowing = False, in_encoding = None,
             data_listeners = [], error_listeners = [], reads = [], frames = [], out = [],
             logged = [], rawMode = False, calls = [], halted = None\<rparr>"

section \<open>Vocabulary for runs\<close>

text \<open>
  The definitions of this section are not part of \<^verbatim>\<open>beseech.js\<close>: they name the
  situations the theorems speak about.

  A session is idle when it is started with both streams bound, the process runs, and no
  read is pending.
\<close>

definition idle :: "world \<Rightarrow> bool" where
  "idle w \<longleftrightarrow> started w \<and> stdin w \<noteq> None \<and> stdout w \<noteq> None \<and> halted w = None
     \<and> data_listeners w = [] \<and> error_listeners w = []"

text \<open>The chunks the switch of \<^verbatim>\<open>readLineHidden\<close> treats as end of line, and as interrupt.\<close>

definition terminators :: "jsstring list" where
  "terminators = [[LF], [CR], [CR, LF], [0x04]]"

definition interrupts :: "jsstring list" where
  "interrupts = [[0x03], [0x00]]"

text \<open>
  Typing the line \<open>l\<close> and Enter at the prompt of a field: a cooked terminal delivers the
  line and its newline as one chunk, a raw terminal delivers every key as a chunk of its
  own and Enter as a carriage return. The line holds no line end (and, for a hidden field,
  no key the switch treats specially).
\<close>

definition typable :: "field \<Rightarrow> jsstring \<Rightarrow> bool" where
  "typable p l \<longleftrightarrow>
     (if prop_hidden p then \<forall>c\<in>set l. c \<notin> set [0x00, 0x03, 0x04, LF, CR]
      else \<forall>c\<in>set l. c \<notin> set [LF, CR])"

definition typed :: "field \<Rightarrow> jsstring \<Rightarrow> event list" where
  "typed p l =
     (if prop_hidden p then map (\<lambda>c. Data [c]) l @ [Data [CR]] else [Data (l @ [LF])])"

definition typed_all :: "(field \<times> jsstring) list \<Rightarrow> event list" where
  "typed_all fls = concat (map (\<lambda>(f, l). typed f l) fls)"

text \<open>What a field's prompt and its answer leave on the output stream.\<close>

definition echo :: "field \<Rightarrow> out_event list" where
  "echo p = Write (prompt_msg p) # (if prop_hidden p then [Write [LF], Flush] else [])"

text \<open>The value a field resolves with when the line \<open>l\<close> is typed.\<close>

definition answer :: "field \<Rightarrow> jsstring \<Rightarrow> jsstring" where
  "answer p l = with_default p (trim l)"

text \<open>The result record of fields answered in order.\<close>

definition record_of :: "(field \<times> jsstring) list \<Rightarrow> result_record" where
  "record_of fls = foldl (\<lambda>r (f, l). store (result_key f) (answer f l) r) [] fls"

text \<open>
  The session at the moment the reader of \<^verbatim>\<open>getInput p callback\<close> calls back, after
  \<open>l\<close> was typed: the help lines and the prompt are out, the stream is paused again, and
  the accumulator of the finished read is left behind.
\<close>

definition prompted :: "field \<Rightarrow> world \<Rightarrow> world" where
  "prompted p w =
     (foldl (\<lambda>w line. logger Help line w) w (prop_help p))\<lparr>out := out w @ [Write (prompt_msg p)]\<rparr>"

definition answered :: "field \<Rightarrow> line_cont \<Rightarrow> jsstring \<Rightarrow> world \<Rightarrow> world" where
  "answered p callback l w =
     (let w1 = prompted p w
      in if prop_hidden p
         then w1\<lparr>rawMode := False, paused := True, in_flowing := False,
                 out := out w1 @ [Write [LF], Flush],
                 reads := reads w1 @ [\<lparr>acc_kind = Hidden, acc_value = trim l, acc_buffer = [],
                                        acc_callback = LGetInput p callback\<rparr>]\<rparr>
         else w1\<lparr>paused := True, in_flowing := False, in_encoding := Some (js ''utf8''),
                 val := Some l,
                 reads := reads w1 @ [\<lparr>acc_kind = Cooked, acc_value = trim l, acc_buffer = [LF],
                                        acc_callback = LGetInput p callback\<rparr>]\<rparr>)"

text \<open>What a failed validation logs, and the session after the lines \<open>ls\<close> were typed at
  the prompt of \<open>p\<close> and all failed validation.\<close>

definition invalid_log :: "field \<Rightarrow> (level \<times> jsstring) list" where
  "invalid_log p =
     (ErrorLevel, js ''Invalid input for '' @ name_grey p)
     # (case prop_warning p of None \<Rightarrow> [] | Some t \<Rightarrow> [(ErrorLevel, t)])"

definition retried :: "field \<Rightarrow> line_cont \<Rightarrow> jsstring list \<Rightarrow> world \<Rightarrow> world" where
  "retried p callback ls w = foldl (\<lambda>w l. log_invalid p (answered p callback l w)) w ls"

text \<open>
  The session after a field of the series \<open>fid\<close> was answered: the answer is logged and
  stored in the result record, and the field is counted as completed.
\<close>

definition advance :: "nat \<Rightarrow> res_cont \<Rightarrow> field \<Rightarrow> jsstring \<Rightarrow> world \<Rightarrow> world" where
  "advance fid cb f l w =
     (let w1 = logger Input (yellow (answer f l)) (answered f (LGetItem fid f cb) l w);
          fr = frames w1 ! fid
      in w1\<lparr>frames := (frames w1)[fid := fr\<lparr>result := store (result_key f) (answer f l) (result fr),
                                             completed := completed fr + 1\<rparr>]\<rparr>)"

definition advance_all :: "nat \<Rightarrow> res_cont \<Rightarrow> (field \<times> jsstring) list \<Rightarrow> world \<Rightarrow> world" where
  "advance_all fid cb fls w = foldl (\<lambda>w (f, l). advance fid cb f l w) w fls"

text \<open>
  An idle session in which the series \<open>fid\<close> over the fields \<open>fs\<close> has completed \<open>n\<close>
  of them and still has its final callback; and the session in which \<^verbatim>\<open>get\<close> has just
  set up such a series.
\<close>

definition in_series :: "nat \<Rightarrow> field list \<Rightarrow> nat \<Rightarrow> world \<Rightarrow> bool" where
  "in_series fid fs n w \<longleftrightarrow>
     idle w \<and> fid < length (frames w) \<and> arr (frames w ! fid) = fs
     \<and> completed (frames w ! fid) = n \<and> live (frames w ! fid)"

definition opened :: "field list \<Rightarrow> world \<Rightarrow> world" where
  "opened fs w = w\<lparr>frames := frames w @ [\<lparr>arr = fs, completed = 0, live = True, result = []\<rparr>]\<rparr>"



fun path_get :: "jsval \<Rightarrow> jsstring list \<Rightarrow> jsval" where
  "path_get v [] = v"
| "path_get (Obj kvs) (key # path) = path_get (prop_get kvs key) path"
| "path_get v (key # path) = Undefined"

text \<open>The target \<^verbatim>\<open>{db: {host: "x"}}\<close>.\<close>

definition db_host_x :: jsobj where
  "db_host_x = [(js ''db'', Obj [(js ''host'', Str (js ''x''))])]"

text \<open>
  Four fields for the concrete instances: one whose predicate only accepts \<^verbatim>\<open>yes\<close>, a
  hidden one whose pattern only accepts digits, one with a default, and one whose pattern
  only accepts digits and whose default is \<^verbatim>\<open>abc\<close>.
\<close>

definition confirm_field :: field where
  "confirm_field = Desc \<lparr>name = Some (js ''confirm''), message = None, default = None,
     hidden = False, validator = Some (Predicate (\<lambda>s. s = js ''yes'')),
     warning = Some (js ''Type yes''), help_lines = None\<rparr>"

definition port_field :: field where
  "port_field = Desc \<lparr>name = Some (js ''port''), message = None, default = None,
     hidden = True,
     validator = Some (Pattern (\<lambda>s. s \<noteq> [] \<and> list_all (\<lambda>c. 0x30 \<le> c \<and> c \<le> 0x39) s)),
     warning = None, help_lines = None\<rparr>"



text \<open>\<^verbatim>\<open>toLowerCase\<close> on the ASCII letters, for the concrete instances below.\<close>

definition ascii_lower :: "jsstring \<Rightarrow> jsstring" where
  "ascii_lower s = map (\<lambda>c. if 0x41 \<le> c \<and> c \<le> 0x5A then c + 0x20 else c) s"

text \<open>A started session on the standard streams.\<close>

definition session0 :: world where
  "session0 = snd (start None None world0)"

section \<open>Strings\<close>

lemma trim_snoc_ws:
  assumes "isWhiteSpace c"
  shows "trim (l @ [c]) = trim l"
proof (cases "\<forall>x\<in>set l. isWhiteSpace x")
  case True
  then have "dropWhile isWhiteSpace l = []" by simp
  moreover from True assms have "dropWhile isWhiteSpace (l @ [c]) = []" by simp
  ultimately show ?thesis by (simp only: trim_def)
next
  case False
  then obtain x where "x \<in> set l" "\<not> isWhiteSpace x" by blast
  then have "dropWhile isWhiteSpace (l @ [c]) = dropWhile isWhiteSpace l @ [c]"
    by (rule dropWhile_append1)
  with assms show ?thesis by (simp add: trim_def)
qed

lemma isWhiteSpace_LF: "isWhiteSpace LF"
  by (simp add: isWhiteSpace_def)

lemma filter_clean: "c \<notin> set l \<Longrightarrow> filter (\<lambda>x. x \<noteq> c) l = l"
  by (induction l) auto

lemma indexOf_snoc: "c \<notin> set l \<Longrightarrow> indexOf (l @ [c]) c = int (length l)"
  by (simp add: indexOf_def takeWhile_append)

lemma strip_leading_clean:
  "LF \<notin> set l \<Longrightarrow> dropWhile (\<lambda>c. c = LF) (l @ [LF]) = (if l = [] then [] else l @ [LF])"
  by (cases l) auto

lemma substr_tail: "substr (l @ [c]) (int (length l)) None = [c]"
  by (simp add: substr_def Let_def)

lemma substr_head: "substr (l @ [c]) 0 (Some (int (length l))) = l"
  by (simp add: substr_def Let_def)

section \<open>One read\<close>

lemma run_Nil: "run [] w = w"
  by (simp add: run_def)

lemma run_Cons: "run (ev # evs) w = run evs (deliver ev w)"
  by (simp add: run_def)

lemma run_append: "run (xs @ ys) w = run ys (run xs w)"
  by (simp add: run_def)

text \<open>A cooked read resolves on the chunk that holds the line and its newline.\<close>

lemma cooked_line:
  assumes "idle w" "LF \<notin> set l" "CR \<notin> set l"
  shows "emit_data (l @ [LF]) (readLine k w) =
     invoke_line k (Inr (trim l))
       (w\<lparr>paused := True, in_flowing := False, in_encoding := Some (js ''utf8''), val := Some l,
          reads := reads w @ [\<lparr>acc_kind = Cooked, acc_value = trim l, acc_buffer = [LF],
                                 acc_callback = k\<rparr>]\<rparr>)"
proof (cases "l = []")
  case True
  have "trim [LF] = []" "substr [LF] 0 (Some (indexOf [LF] LF)) = []"
       "substr [LF] (indexOf [LF] LF) None = [LF]" "trim [] = ([]::jsstring)"
    by (simp_all add: trim_def isWhiteSpace_def substr_def indexOf_def)
  with True assms show ?thesis
    by (cases w)
       (auto simp add: idle_def emit_data_def readLine_def resume_def attach_def
          data_listener_def readLine_data_def Let_def pause_def indexOf_def)
next
  case False
  with assms show ?thesis
    by (cases w)
       (auto simp add: idle_def filter_clean emit_data_def readLine_def resume_def attach_def
          data_listener_def readLine_data_def Let_def indexOf_snoc strip_leading_clean
          substr_tail substr_head trim_snoc_ws isWhiteSpace_LF pause_def)
qed

text \<open>A hidden read accumulates every chunk that is neither a terminator nor an interrupt.\<close>

lemma hidden_chunks:
  assumes "halted w = None" "data_listeners w = [rid]" "rid < length (reads w)"
      and "reads w ! rid = \<lparr>acc_kind = Hidden, acc_value = v, acc_buffer = [], acc_callback = k\<rparr>"
      and "\<forall>c\<in>set cs. c \<notin> set terminators \<and> c \<notin> set interrupts"
  shows "run (map Data cs) w =
         w\<lparr>reads := (reads w)[rid := \<lparr>acc_kind = Hidden, acc_value = v @ concat cs,
                                      acc_buffer = [], acc_callback = k\<rparr>]\<rparr>"
  using assms
proof (induction cs arbitrary: w v)
  case Nil
  then have "(reads w)[rid := \<lparr>acc_kind = Hidden, acc_value = v, acc_buffer = [],
      acc_callback = k\<rparr>] = reads w"
    by (metis list_update_id)
  then show ?case by (simp add: run_Nil)
next
  case (Cons c cs)
  let ?w1 = "w\<lparr>reads := (reads w)[rid := \<lparr>acc_kind = Hidden, acc_value = v @ c,
                                      acc_buffer = [], acc_callback = k\<rparr>]\<rparr>"
  from Cons.prems have step: "deliver (Data c) w = ?w1"
    by (simp add: emit_data_def data_listener_def readLineHidden_data_def Let_def
        terminators_def interrupts_def)
  from Cons.prems have "run (map Data cs) ?w1 =
      ?w1\<lparr>reads := (reads ?w1)[rid := \<lparr>acc_kind = Hidden, acc_value = (v @ c) @ concat cs,
                                      acc_buffer = [], acc_callback = k\<rparr>]\<rparr>"
    by (intro Cons.IH) simp_all
  with step show ?case by (simp add: run_Cons)
qed

lemma readLineHidden_idle:
  assumes "idle w"
  shows "halted (readLineHidden k w) = None"
    and "data_listeners (readLineHidden k w) = [length (reads w)]"
    and "error_listeners (readLineHidden k w) = [length (reads w)]"
    and "length (reads w) < length (reads (readLineHidden k w))"
    and "reads (readLineHidden k w) ! length (reads w) =
           \<lparr>acc_kind = Hidden, acc_value = [], acc_buffer = [], acc_callback = k\<rparr>"
    and "rawMode (readLineHidden k w)"
    and "out (readLineHidden k w) = out w"
    and "calls (readLineHidden k w) = calls w"
    and "\<not> paused (readLineHidden k w)"
  using assms
  by (auto simp add: idle_def readLineHidden_def resume_def attach_def Let_def)

lemma hidden_line:
  assumes "idle w" "\<forall>c\<in>set cs. c \<notin> set terminators \<and> c \<notin> set interrupts"
      and "t \<in> set terminators"
  shows "run (map Data cs @ [Data t]) (readLineHidden k w) =
     invoke_line k (Inr (trim (concat cs)))
       (w\<lparr>rawMode := False, paused := True, in_flowing := False,
          out := out w @ [Write [LF], Flush],
          reads := reads w @ [\<lparr>acc_kind = Hidden, acc_value = trim (concat cs), acc_buffer = [],
                                 acc_callback = k\<rparr>]\<rparr>)"
proof -
  let ?w1 = "readLineHidden k w"
  let ?rid = "length (reads w)"
  have "run (map Data cs) ?w1 =
        ?w1\<lparr>reads := (reads ?w1)[?rid := \<lparr>acc_kind = Hidden, acc_value = [] @ concat cs,
                                      acc_buffer = [], acc_callback = k\<rparr>]\<rparr>"
    using readLineHidden_idle(1,2,4,5) [OF assms(1)] assms(2) by (rule hidden_chunks)
  with assms(1,3) show ?thesis
    by (cases w)
       (auto simp add: run_append run_Cons run_Nil idle_def readLineHidden_def resume_def
          attach_def Let_def emit_data_def data_listener_def readLineHidden_data_def
          terminators_def stdout_write_def pause_def)
qed

text \<open>An error is passed on to the caller; on the way only the trace of calls and the
  runs of \<^verbatim>\<open>async.forEachSeries\<close> change.\<close>

lemma invoke_res_error_frame: "\<exists>c. invoke_res cb (Inl e) w = w\<lparr>calls := c\<rparr>"
proof (cases cb)
  case (RUser t)
  then show ?thesis by auto
next
  case (RAddProps obj k)
  then show ?thesis by (cases k) auto
qed

lemma invoke_line_error_frame: "\<exists>c f. invoke_line k (Inl e) w = w\<lparr>calls := c, frames := f\<rparr>"
proof (induction k)
  case (LUser t)
  have "invoke_line (LUser t) (Inl e) w = w\<lparr>calls := calls w @ [LineCall t (Inl e)], frames := frames w\<rparr>"
    by simp
  then show ?case by blast
next
  case (LGetInput p k)
  then show ?case by simp
next
  case (LGetItem fid target cb)
  obtain c where c: "invoke_res cb (Inl e) w = w\<lparr>calls := c\<rparr>"
    using invoke_res_error_frame by blast
  show ?case
  proof (cases "length (frames w) \<le> fid \<or> \<not> live (frames w ! fid)")
    case True
    then have "invoke_line (LGetItem fid target cb) (Inl e) w = w\<lparr>calls := calls w, frames := frames w\<rparr>"
      by simp
    then show ?thesis by blast
  next
    case False
    then have "invoke_line (LGetItem fid target cb) (Inl e) w =
        w\<lparr>calls := c, frames := (frames w)[fid := (frames w ! fid)\<lparr>live := False\<rparr>]\<rparr>"
      by (simp add: c Let_def)
    then show ?thesis by blast
  qed
qed

lemma readLine_idle:
  assumes "idle w"
  shows "halted (readLine k w) = None"
    and "data_listeners (readLine k w) = [length (reads w)]"
    and "error_listeners (readLine k w) = [length (reads w)]"
    and "length (reads w) < length (reads (readLine k w))"
    and "reads (readLine k w) ! length (reads w) =
           \<lparr>acc_kind = Cooked, acc_value = [], acc_buffer = [], acc_callback = k\<rparr>"
    and "out (readLine k w) = out w"
    and "calls (readLine k w) = calls w"
    and "\<not> paused (readLine k w)"
  using assms
  by (auto simp add: idle_def readLine_def resume_def attach_def Let_def)

lemma emit_error_single:
  assumes "halted w = None" "error_listeners w = [rid]" "rid < length (reads w)"
  shows "emit_error e w = invoke_line (acc_callback (reads w ! rid)) (Inl e) w"
  using assms by (simp add: emit_error_def error_listener_def)

lemma emit_error_readLine:
  assumes "idle w"
  shows "emit_error e (readLine k w) = invoke_line k (Inl e) (readLine k w)"
  using emit_error_single [of "readLine k w" "length (reads w)" e] readLine_idle [OF assms, of k]
  by simp

lemma emit_error_readLineHidden:
  assumes "idle w"
  shows "emit_error e (readLineHidden k w) = invoke_line k (Inl e) (readLineHidden k w)"
  using emit_error_single [of "readLineHidden k w" "length (reads w)" e]
    readLineHidden_idle [OF assms, of k]
  by simp

lemma readLine_calls_upd: "readLine k (w\<lparr>calls := c\<rparr>) = (readLine k w)\<lparr>calls := c\<rparr>"
  by (simp add: readLine_def resume_def attach_def Let_def split: option.splits)

lemma readLineHidden_calls_upd: "readLineHidden k (w\<lparr>calls := c\<rparr>) = (readLineHidden k w)\<lparr>calls := c\<rparr>"
  by (simp add: readLineHidden_def resume_def attach_def Let_def split: option.splits)

lemma idle_calls_upd: "idle (w\<lparr>calls := c\<rparr>) = idle w"
  by (simp add: idle_def)

section \<open>One prompt\<close>

lemma help_fold:
  "foldl (\<lambda>w line. logger Help line w) w ls = w\<lparr>logged := logged w @ map (Pair Help) ls\<rparr>"
  by (induction ls arbitrary: w) (simp_all add: logger_def)

lemma prompted_eq:
  "prompted p w = w\<lparr>logged := logged w @ map (Pair Help) (prop_help p),
                     out := out w @ [Write (prompt_msg p)]\<rparr>"
  by (simp add: prompted_def help_fold)

lemma getInput_idle:
  "idle w \<Longrightarrow> getInput p k w =
     (if prop_hidden p then readLineHidden else readLine) (LGetInput p k) (prompted p w)"
  by (auto simp add: getInput_def Let_def idle_def stdout_write_def prompted_eq help_fold)

lemma idle_prompted: "idle w \<Longrightarrow> idle (prompted p w)"
  by (simp add: idle_def prompted_eq)

lemma answer_step:
  assumes "idle w" "typable p l"
  shows "run (typed p l) (getInput p k w) =
         invoke_line (LGetInput p k) (Inr (trim l)) (answered p k l w)"
proof (cases "prop_hidden p")
  case True
  from assms(1) have i: "idle (prompted p w)" by (rule idle_prompted)
  from True assms(2) have c: "\<forall>c\<in>set (map (\<lambda>c. [c]) l). c \<notin> set terminators \<and> c \<notin> set interrupts"
    by (auto simp add: typable_def terminators_def interrupts_def)
  have t: "[CR] \<in> set terminators" by (simp add: terminators_def)
  have m: "map Data (map (\<lambda>c. [c]) l) = map (\<lambda>c. Data [c]) l" by simp
  have cc: "concat (map (\<lambda>c. [c]) l) = l" by (induction l) simp_all
  from hidden_line [OF i c t, where k = "LGetInput p k"]
  show ?thesis using True assms(1)
    by (simp add: getInput_idle typed_def answered_def Let_def m cc del: invoke_line.simps map_map)
next
  case False
  from assms(1) have i: "idle (prompted p w)" by (rule idle_prompted)
  from False assms(2) have "LF \<notin> set l" "CR \<notin> set l" by (auto simp add: typable_def)
  from cooked_line [OF i this, where k = "LGetInput p k"]
  show ?thesis using False assms(1)
    by (simp add: getInput_idle typed_def answered_def Let_def run_Cons run_Nil
          del: invoke_line.simps)
qed

lemma answered_simps:
  "calls (answered p k l w) = calls w"
  "frames (answered p k l w) = frames w"
  "properties (answered p k l w) = properties w"
  "logged (answered p k l w) = logged w @ map (Pair Help) (prop_help p)"
  "out (answered p k l w) = out w @ echo p"
  "data_listeners (answered p k l w) = data_listeners w"
  "error_listeners (answered p k l w) = error_listeners w"
  "halted (answered p k l w) = halted w"
  by (simp_all add: answered_def Let_def prompted_eq echo_def)

lemma idle_answered: "idle w \<Longrightarrow> idle (answered p k l w)"
  by (simp add: idle_def answered_def Let_def prompted_eq)

lemma log_invalid_eq: "log_invalid p w = w\<lparr>logged := logged w @ invalid_log p\<rparr>"
  by (simp add: log_invalid_def invalid_log_def logger_def Let_def split: option.splits)

lemma idle_log_invalid: "idle (log_invalid p w) = idle w"
  by (simp add: idle_def log_invalid_eq)

lemma idle_logger: "idle (logger lv s w) = idle w"
  by (simp add: idle_def logger_def)

lemma reader_keeps:
  "logged (readLine k w) = logged w" "frames (readLine k w) = frames w"
  "logged (readLineHidden k w) = logged w" "frames (readLineHidden k w) = frames w"
  by (simp_all add: readLine_def readLineHidden_def resume_def attach_def Let_def
      split: option.splits)

lemma getInput_simps:
  assumes "idle w"
  shows "calls (getInput p k w) = calls w"
    and "out (getInput p k w) = out w @ [Write (prompt_msg p)]"
    and "logged (getInput p k w) = logged w @ map (Pair Help) (prop_help p)"
    and "frames (getInput p k w) = frames w"
    and "halted (getInput p k w) = None"
    and "data_listeners (getInput p k w) = [length (reads w)]"
    and "error_listeners (getInput p k w) = [length (reads w)]"
    and "length (reads w) < length (reads (getInput p k w))"
    and "acc_callback (reads (getInput p k w) ! length (reads w)) = LGetInput p k"
proof -
  have ip: "idle (prompted p w)" using assms by (rule idle_prompted)
  show "calls (getInput p k w) = calls w"
    and "out (getInput p k w) = out w @ [Write (prompt_msg p)]"
    and "logged (getInput p k w) = logged w @ map (Pair Help) (prop_help p)"
    and "frames (getInput p k w) = frames w"
    and "halted (getInput p k w) = None"
    and "data_listeners (getInput p k w) = [length (reads w)]"
    and "error_listeners (getInput p k w) = [length (reads w)]"
    and "length (reads w) < length (reads (getInput p k w))"
    and "acc_callback (reads (getInput p k w) ! length (reads w)) = LGetInput p k"
    using assms readLine_idle [OF ip, of "LGetInput p k"] readLineHidden_idle [OF ip, of "LGetInput p k"]
    by (simp_all add: getInput_idle prompted_eq reader_keeps)
qed

lemma retry_step:
  assumes "idle w" "typable p l" "\<not> accepts p (answer p l)"
  shows "run (typed p l) (getInput p k w) = getInput p k (log_invalid p (answered p k l w))"
  using assms by (simp add: answer_step answer_def Let_def)

lemma accept_step:
  assumes "idle w" "typable p l" "accepts p (answer p l)"
  shows "run (typed p l) (getInput p k w) =
         invoke_line k (Inr (answer p l)) (logger Input (yellow (answer p l)) (answered p k l w))"
  using assms by (simp add: answer_step answer_def Let_def)

lemma retries:
  assumes "idle w" "\<forall>l\<in>set ls. typable p l \<and> \<not> accepts p (answer p l)"
  shows "run (concat (map (typed p) ls)) (getInput p k w) = getInput p k (retried p k ls w)
       \<and> idle (retried p k ls w)"
  using assms
proof (induction ls arbitrary: w)
  case Nil
  then show ?case by (simp add: run_Nil retried_def)
next
  case (Cons l ls)
  let ?w1 = "log_invalid p (answered p k l w)"
  from Cons.prems have i: "idle ?w1" by (simp add: idle_log_invalid idle_answered)
  from Cons.prems have "run (typed p l) (getInput p k w) = getInput p k ?w1"
    by (simp add: retry_step)
  moreover from Cons.prems i have "run (concat (map (typed p) ls)) (getInput p k ?w1)
      = getInput p k (retried p k ls ?w1) \<and> idle (retried p k ls ?w1)"
    by (intro Cons.IH) simp_all
  ultimately show ?case by (simp add: run_append retried_def)
qed

lemma retried_simps:
  "calls (retried p k ls w) = calls w"
  "out (retried p k ls w) = out w @ concat (map (\<lambda>l. echo p) ls)"
  "logged (retried p k ls w)
     = logged w @ concat (map (\<lambda>l. map (Pair Help) (prop_help p) @ invalid_log p) ls)"
  by (induction ls arbitrary: w) (simp_all add: retried_def log_invalid_eq answered_simps)

section \<open>A series of prompts\<close>

lemma idle_answered_eq: "idle (answered p k l w) = idle w"
  by (simp add: idle_def answered_def Let_def prompted_eq)

lemma idle_frames_upd: "idle (w\<lparr>frames := f\<rparr>) = idle w"
  by (simp add: idle_def)

lemma advance_simps:
  "calls (advance fid cb f l w) = calls w"
  "out (advance fid cb f l w) = out w @ echo f"
  "length (frames (advance fid cb f l w)) = length (frames w)"
  "idle (advance fid cb f l w) = idle w"
     apply (simp_all add: advance_def Let_def idle_frames_upd idle_logger idle_answered_eq)
    apply (simp_all add: logger_def answered_simps)
  done

lemma advance_frame:
  "fid < length (frames w) \<Longrightarrow>
   frames (advance fid cb f l w) ! fid =
     (frames w ! fid)\<lparr>result := store (result_key f) (answer f l) (result (frames w ! fid)),
                      completed := completed (frames w ! fid) + 1\<rparr>"
  by (simp add: advance_def Let_def logger_def answered_simps)

lemma in_series_advance:
  "in_series fid fs n w \<Longrightarrow> in_series fid fs (Suc n) (advance fid cb f l w)"
  by (simp add: in_series_def advance_simps advance_frame)

lemma item_step:
  assumes "in_series fid fs n w" "n < length fs" "typable (fs ! n) l"
      and "accepts (fs ! n) (answer (fs ! n) l)"
  shows "run (typed (fs ! n) l) (getInput (fs ! n) (LGetItem fid (fs ! n) cb) w) =
         (if Suc n = length fs
          then invoke_res cb (Inr (result (frames (advance fid cb (fs ! n) l w) ! fid)))
                 (advance fid cb (fs ! n) l w)
          else getInput (fs ! Suc n) (LGetItem fid (fs ! Suc n) cb) (advance fid cb (fs ! n) l w))"
proof -
  from assms(1) have i: "idle w" by (simp add: in_series_def)
  from assms(1,2) show ?thesis
    by (auto simp add: accept_step [OF i assms(3,4)] in_series_def advance_def Let_def
        logger_def answered_simps)
qed

lemma typed_all_simps:
  "typed_all [] = []"
  "typed_all ((f, l) # fls) = typed f l @ typed_all fls"
  by (simp_all add: typed_all_def)

lemma advance_all_simps:
  "advance_all fid cb [] w = w"
  "advance_all fid cb ((f, l) # fls) w = advance_all fid cb fls (advance fid cb f l w)"
  by (simp_all add: advance_all_def)

lemma series_run:
  assumes "in_series fid fs n w" "n < length fs" "n + length ls \<le> length fs"
      and "\<forall>(f, l)\<in>set (zip (drop n fs) ls). typable f l \<and> accepts f (answer f l)"
  shows "run (typed_all (zip (drop n fs) ls)) (getInput (fs ! n) (LGetItem fid (fs ! n) cb) w) =
         (if n + length ls = length fs
          then invoke_res cb (Inr (result (frames (advance_all fid cb (zip (drop n fs) ls) w) ! fid)))
                 (advance_all fid cb (zip (drop n fs) ls) w)
          else getInput (fs ! (n + length ls)) (LGetItem fid (fs ! (n + length ls)) cb)
                 (advance_all fid cb (zip (drop n fs) ls) w))
       \<and> in_series fid fs (n + length ls) (advance_all fid cb (zip (drop n fs) ls) w)"
  using assms
proof (induction ls arbitrary: n w)
  case Nil
  then show ?case by (simp add: typed_all_simps advance_all_simps run_Nil)
next
  case (Cons l ls)
  let ?w1 = "advance fid cb (fs ! n) l w"
  from Cons.prems(2) have d: "drop n fs = fs ! n # drop (Suc n) fs"
    by (simp add: Cons_nth_drop_Suc)
  from Cons.prems(4) d have ok: "typable (fs ! n) l" "accepts (fs ! n) (answer (fs ! n) l)"
    and rest: "\<forall>(f, l)\<in>set (zip (drop (Suc n) fs) ls). typable f l \<and> accepts f (answer f l)"
    by simp_all
  note step = item_step [OF Cons.prems(1,2) ok, of cb]
  from Cons.prems(1) have s1: "in_series fid fs (Suc n) ?w1" by (rule in_series_advance)
  show ?case
  proof (cases "Suc n = length fs")
    case True
    from True [symmetric] Cons.prems(3) have "ls = []" by simp
    with True step s1 show ?thesis
      by (simp add: d typed_all_simps advance_all_simps run_append run_Nil)
  next
    case False
    with Cons.prems(2) have lt: "Suc n < length fs" by simp
    from Cons.prems(3) have le: "Suc n + length ls \<le> length fs" by simp
    from Cons.IH [OF s1 lt le rest] False step show ?thesis
      by (simp add: d typed_all_simps advance_all_simps run_append)
  qed
qed

lemma advance_all_simps2:
  "calls (advance_all fid cb fls w) = calls w"
  "out (advance_all fid cb fls w) = out w @ concat (map (\<lambda>(f, l). echo f) fls)"
  "length (frames (advance_all fid cb fls w)) = length (frames w)"
  by (induction fls arbitrary: w) (auto simp add: advance_all_simps advance_simps)

lemma advance_all_result:
  "fid < length (frames w) \<Longrightarrow>
   result (frames (advance_all fid cb fls w) ! fid) =
     foldl (\<lambda>r (f, l). store (result_key f) (answer f l) r) (result (frames w ! fid)) fls"
  by (induction fls arbitrary: w) (auto simp add: advance_all_simps advance_simps advance_frame)

lemma those_map_Some: "those (map Some xs) = Some xs"
  by (induction xs) simp_all

lemma get_start:
  assumes "map (normalize lc (properties w)) (case m of Many vs \<Rightarrow> vs | One v \<Rightarrow> [v]) = map Some fs"
  shows "get lc m cb w =
         (if fs = [] then invoke_res cb (Inr []) w
          else getInput (fs ! 0) (LGetItem (length (frames w)) (fs ! 0) cb) (opened fs w))"
  using assms by (cases fs) (simp_all add: get_def those_map_Some opened_def)

lemma in_series_opened: "idle w \<Longrightarrow> in_series (length (frames w)) fs 0 (opened fs w)"
  by (simp add: in_series_def opened_def idle_def)

lemma opened_simps:
  "calls (opened fs w) = calls w" "out (opened fs w) = out w"
  "result (frames (opened fs w) ! length (frames w)) = []"
  "length (frames w) < length (frames (opened fs w))"
  by (simp_all add: opened_def)

lemma emit_error_getInput:
  assumes "idle w"
  shows "emit_error e (getInput p k w) = invoke_line k (Inl e) (getInput p k w)"
  using emit_error_single [of "getInput p k w" "length (reads w)" e] getInput_simps [OF assms, of p k]
  by simp

text \<open>A whole run of get: the first answers of a series, in one statement.\<close>

lemma get_run:
  assumes "idle w"
      and "map (normalize lc (properties w)) (case m of Many vs \<Rightarrow> vs | One v \<Rightarrow> [v]) = map Some fs"
      and "fs \<noteq> []" and "length ls \<le> length fs"
      and "\<forall>(f, l)\<in>set (zip fs ls). typable f l \<and> accepts f (answer f l)"
  shows "\<exists>w'. idle w' \<and> calls w' = calls w
           \<and> out w' = out w @ concat (map (\<lambda>(f, l). echo f) (zip fs ls))
           \<and> length (frames w) < length (frames w') \<and> live (frames w' ! length (frames w))
           \<and> run (typed_all (zip fs ls)) (get lc m cb w) =
               (if length ls = length fs then invoke_res cb (Inr (record_of (zip fs ls))) w'
                else getInput (fs ! length ls) (LGetItem (length (frames w)) (fs ! length ls) cb) w')"
proof -
  let ?fid = "length (frames w)"
  let ?w' = "advance_all ?fid cb (zip fs ls) (opened fs w)"
  from assms(3) have n: "0 < length fs" by simp
  from assms(4) have le: "0 + length ls \<le> length fs" by simp
  from assms(5) have ok: "\<forall>(f, l)\<in>set (zip (drop 0 fs) ls). typable f l \<and> accepts f (answer f l)" by simp
  note sr = series_run [OF in_series_opened [OF assms(1), of fs] n le ok, of cb]
  have res: "result (frames ?w' ! ?fid) = record_of (zip fs ls)"
    by (simp add: advance_all_result opened_simps record_of_def)
  from sr have "run (typed_all (zip fs ls)) (get lc m cb w) =
               (if length ls = length fs then invoke_res cb (Inr (record_of (zip fs ls))) ?w'
                else getInput (fs ! length ls) (LGetItem ?fid (fs ! length ls) cb) ?w')"
    using assms(3) by (simp add: get_start [OF assms(2)] res)
  moreover from sr have "idle ?w'" "live (frames ?w' ! ?fid)" by (simp_all add: in_series_def)
  moreover have "calls ?w' = calls w" "out ?w' = out w @ concat (map (\<lambda>(f, l). echo f) (zip fs ls))"
    "?fid < length (frames ?w')"
    by (simp_all add: advance_all_simps2 opened_simps)
  ultimately show ?thesis by blast
qed

lemma error_in_series:
  assumes "idle w'" "fid < length (frames w')" "live (frames w' ! fid)"
  shows "emit_error e (getInput p (LGetItem fid p cb) w') =
         (let w1 = invoke_res cb (Inl e) (getInput p (LGetItem fid p cb) w')
          in w1\<lparr>frames := (frames w1)[fid := (frames w1 ! fid)\<lparr>live := False\<rparr>]\<rparr>)"
  using assms by (simp add: emit_error_getInput getInput_simps)

text \<open>The prompts of a series, in one statement for the callers of \<^verbatim>\<open>get\<close>.\<close>

lemma get_prompts_in_order:
  assumes "idle w"
      and "map (normalize toLowerCase (properties w)) (case m of Many vs \<Rightarrow> vs | One v \<Rightarrow> [v]) = map Some fs"
      and "length ls \<le> length fs"
      and "\<forall>(f, l)\<in>set (zip fs ls). typable f l \<and> accepts f (answer f l)"
  shows "(length ls < length fs \<longrightarrow>
            calls (run (typed_all (zip fs ls)) (get toLowerCase m (RUser n) w)) = calls w
          \<and> out (run (typed_all (zip fs ls)) (get toLowerCase m (RUser n) w))
              = out w @ concat (map (\<lambda>(f, l). echo f) (zip fs ls)) @ [Write (prompt_msg (fs ! length ls))]
          \<and> calls (emit_error e (run (typed_all (zip fs ls)) (get toLowerCase m (RUser n) w)))
              = calls w @ [ResCall n (Inl e)]
          \<and> out (emit_error e (run (typed_all (zip fs ls)) (get toLowerCase m (RUser n) w)))
              = out (run (typed_all (zip fs ls)) (get toLowerCase m (RUser n) w)))
       \<and> (length ls = length fs \<longrightarrow>
            calls (run (typed_all (zip fs ls)) (get toLowerCase m (RUser n) w))
              = calls w @ [ResCall n (Inr (record_of (zip fs ls)))]
          \<and> out (run (typed_all (zip fs ls)) (get toLowerCase m (RUser n) w))
              = out w @ concat (map (\<lambda>(f, l). echo f) (zip fs ls)))"
proof (cases "fs = []")
  case True
  with assms(3) have "ls = []" by simp
  with True show ?thesis
    by (simp add: get_start [OF assms(2)] typed_all_simps run_Nil record_of_def)
next
  case False
  from get_run [OF assms(1,2) False assms(3,4), of "RUser n"]
  obtain w' where w': "idle w'" "calls w' = calls w"
      "out w' = out w @ concat (map (\<lambda>(f, l). echo f) (zip fs ls))"
      "length (frames w) < length (frames w')" "live (frames w' ! length (frames w))"
    and r: "run (typed_all (zip fs ls)) (get toLowerCase m (RUser n) w) =
             (if length ls = length fs then invoke_res (RUser n) (Inr (record_of (zip fs ls))) w'
              else getInput (fs ! length ls)
                     (LGetItem (length (frames w)) (fs ! length ls) (RUser n)) w')"
    by blast
  show ?thesis
  proof (cases "length ls = length fs")
    case True
    with r w' show ?thesis by simp
  next
    case False
    with r w' show ?thesis
      by (simp add: getInput_simps error_in_series Let_def)
  qed
qed

section \<open>Nested assignment\<close>

text \<open>
  \<^verbatim>\<open>putNested\<close> changes nothing at a path that diverges from the path it walks, and the
  merge of a record inherits this; where the path can be descended, the value at the path
  is the assigned one afterwards, and later assignments at diverging paths keep it.
\<close>

lemma split_on_not_Nil: "split_on c s \<noteq> []"
  by (induction s) (auto split: list.splits)






lemma assign_top:
  assumes "assign (Obj kvs) key v = Done lastv'" "y \<noteq> key"
  shows "\<exists>kvs'. lastv' = Obj kvs' \<and> map_of kvs' y = map_of kvs y"
  using assms by (auto simp add: update_conv' split: if_splits jsval.splits)


lemma putNested_Obj:
  assumes "putNested (Obj kvs) path v = Done lastv'"
  shows "\<exists>kvs'. lastv' = Obj kvs'"
proof (cases path)
  case Nil
  with assms show ?thesis by (auto split: if_splits jsval.splits)
next
  case (Cons key rest)
  show ?thesis
  proof (cases rest)
    case Nil
    with Cons assms show ?thesis by (auto split: if_splits jsval.splits)
  next
    case (Cons k rest')
    with \<open>path = key # rest\<close> assms show ?thesis
      by (auto split: outcome.splits if_splits jsval.splits option.splits)
  qed
qed


















section \<open>Session lifecycle: \<^verbatim>\<open>start\<close>\<close>

text \<open>
  C8, as the code has it. A call of \<^verbatim>\<open>start\<close> on a started session changes nothing,
  whatever streams it is given, and returns \<^verbatim>\<open>undefined\<close>; only the call that starts
  the session returns the session handle.
\<close>

theorem start_idempotent:
  "start i2 o2 (snd (start i1 o1 w)) = (None, snd (start i1 o1 w))
   \<and> fst (start i1 o1 w) = (if started w then None else Some Beseech)"
  by (simp add: start_def)

theorem start_idempotent_witness:
  "start (Some (InStream 1)) (Some (OutStream 1)) session0 = (None, session0)
   \<and> fst (start None None world0) = Some Beseech"
  using start_idempotent [of "Some (InStream 1)" "Some (OutStream 1)" None None world0]
  by (simp add: session0_def world0_def)

text \<open>
  C8 as stated says that every call returns the session handle. The second call on a fresh
  process does not.
\<close>

theorem start_second_call_counterexample:
  "fst (start None None (snd (start None None world0))) \<noteq> Some Beseech"
  by (simp add: start_def world0_def)

section \<open>The cooked reader on a chunk of two lines\<close>

text \<open>
  C1 at the chunk \<^verbatim>\<open>"first\nsecond\n"\<close>. The listener computes the line \<^verbatim>\<open>first\<close>
  (into the undeclared \<^verbatim>\<open>val\<close>) and the carry \<^verbatim>\<open>"\nsecond\n"\<close> (into \<^verbatim>\<open>buffer\<close>), but
  calls back with the whole trimmed chunk, \<^verbatim>\<open>"first\nsecond"\<close>. A second \<^verbatim>\<open>readLine\<close>
  starts from empty \<^verbatim>\<open>value\<close> and \<^verbatim>\<open>buffer\<close> variables of its own and calls nothing
  back: the carry of the first read is out of its reach.
\<close>

theorem readLine_first_second:
  "calls (emit_data (js ''first\<newline>second\<newline>'') (readLine (LUser 1) session0))
     = [LineCall 1 (Inr (js ''first\<newline>second''))]
   \<and> val (emit_data (js ''first\<newline>second\<newline>'') (readLine (LUser 1) session0)) = Some (js ''first'')
   \<and> acc_buffer (reads (emit_data (js ''first\<newline>second\<newline>'') (readLine (LUser 1) session0)) ! 0)
     = js ''\<newline>second\<newline>''
   \<and> calls (readLine (LUser 2)
        (emit_data (js ''first\<newline>second\<newline>'') (readLine (LUser 1) session0)))
     = [LineCall 1 (Inr (js ''first\<newline>second''))]
   \<and> reads (readLine (LUser 2)
        (emit_data (js ''first\<newline>second\<newline>'') (readLine (LUser 1) session0))) ! 1
     = \<lparr>acc_kind = Cooked, acc_value = [], acc_buffer = [], acc_callback = LUser 2\<rparr>"
  by (simp add: session0_def start_def world0_def readLine_def resume_def attach_def
      emit_data_def data_listener_def readLine_data_def Let_def js_def indexOf_def substr_def
      trim_def isWhiteSpace_def pause_def)

section \<open>The hidden reader\<close>

text \<open>
  C6 as stated fails: the listener compares the whole chunk with the terminators. A chunk
  that holds a terminator character among others, such as \<^verbatim>\<open>pw\<close> followed by a carriage
  return, does not end the read: it is accumulated with the carriage return in it, the
  terminal stays in raw mode, the listener stays attached, nothing is written and nothing
  is called back.
\<close>

theorem readLineHidden_embedded_terminator_counterexample:
  "calls (run [Data (js ''pw'' @ [CR])] (readLineHidden (LUser 1) session0)) = []
   \<and> rawMode (run [Data (js ''pw'' @ [CR])] (readLineHidden (LUser 1) session0))
   \<and> out (run [Data (js ''pw'' @ [CR])] (readLineHidden (LUser 1) session0)) = []
   \<and> data_listeners (run [Data (js ''pw'' @ [CR])] (readLineHidden (LUser 1) session0)) = [0]
   \<and> acc_value (reads (run [Data (js ''pw'' @ [CR])] (readLineHidden (LUser 1) session0)) ! 0)
       = js ''pw'' @ [CR]"
  by (simp add: run_def js_def session0_def start_def world0_def readLineHidden_def resume_def
      attach_def emit_data_def data_listener_def readLineHidden_data_def Let_def)

text \<open>
  C6, as the code has it. On an idle session, \<^verbatim>\<open>readLineHidden\<close> followed by any chunks
  that are neither terminators nor interrupts (a chunk with a terminator character inside
  it is such a chunk) writes nothing to the output, calls nothing back and leaves the
  terminal in raw mode. A chunk that is exactly a terminator (newline, carriage return,
  both, or end-of-transmission) then restores cooked mode, detaches both listeners, writes
  exactly one newline and flushes, pauses the input, and calls back once with the trimmed
  concatenation of the chunks.
\<close>

theorem readLineHidden_terminator:
  assumes "idle w"
      and "\<forall>c\<in>set cs. c \<notin> set terminators \<and> c \<notin> set interrupts"
      and "t \<in> set terminators"
  shows "out (run (map Data cs) (readLineHidden (LUser n) w)) = out w
       \<and> calls (run (map Data cs) (readLineHidden (LUser n) w)) = calls w
       \<and> rawMode (run (map Data cs) (readLineHidden (LUser n) w))
       \<and> \<not> rawMode (run (map Data cs @ [Data t]) (readLineHidden (LUser n) w))
       \<and> data_listeners (run (map Data cs @ [Data t]) (readLineHidden (LUser n) w)) = []
       \<and> error_listeners (run (map Data cs @ [Data t]) (readLineHidden (LUser n) w)) = []
       \<and> out (run (map Data cs @ [Data t]) (readLineHidden (LUser n) w)) = out w @ [Write [LF], Flush]
       \<and> paused (run (map Data cs @ [Data t]) (readLineHidden (LUser n) w))
       \<and> \<not> in_flowing (run (map Data cs @ [Data t]) (readLineHidden (LUser n) w))
       \<and> calls (run (map Data cs @ [Data t]) (readLineHidden (LUser n) w))
           = calls w @ [LineCall n (Inr (trim (concat cs)))]"
proof -
  let ?w1 = "readLineHidden (LUser n) w"
  have "run (map Data cs) ?w1 =
        ?w1\<lparr>reads := (reads ?w1)[length (reads w) := \<lparr>acc_kind = Hidden, acc_value = [] @ concat cs,
                                      acc_buffer = [], acc_callback = LUser n\<rparr>]\<rparr>"
    using readLineHidden_idle(1,2,4,5) [OF assms(1)] assms(2) by (rule hidden_chunks)
  then have a: "out (run (map Data cs) ?w1) = out w" "calls (run (map Data cs) ?w1) = calls w"
    "rawMode (run (map Data cs) ?w1)"
    using readLineHidden_idle(6,7,8) [OF assms(1), of "LUser n"] by simp_all
  from assms(1) have b: "data_listeners w = []" "error_listeners w = []"
    by (simp_all add: idle_def)
  show ?thesis
    using a b by (simp add: hidden_line [OF assms])
qed

theorem readLineHidden_terminator_witness:
  "calls (run [Data (js '' s3cr''), Data (js ''et ''), Data [CR]] (readLineHidden (LUser 1) session0))
     = [LineCall 1 (Inr (js ''s3cret''))]
   \<and> out (run [Data (js '' s3cr''), Data (js ''et ''), Data [CR]] (readLineHidden (LUser 1) session0))
     = [Write [LF], Flush]
   \<and> out (run [Data (js '' s3cr''), Data (js ''et '')] (readLineHidden (LUser 1) session0)) = []
   \<and> rawMode (run [Data (js '' s3cr''), Data (js ''et '')] (readLineHidden (LUser 1) session0))
   \<and> \<not> rawMode (run [Data (js '' s3cr''), Data (js ''et ''), Data [CR]] (readLineHidden (LUser 1) session0))"
  using readLineHidden_terminator [of session0 "[js '' s3cr'', js ''et '']" "[CR]" 1]
  by (simp add: idle_def session0_def start_def world0_def terminators_def interrupts_def js_def
      trim_def isWhiteSpace_def)

section \<open>A stream error during a read\<close>

text \<open>
  C10. When the stream emits an error during \<^verbatim>\<open>readLine\<close> or \<^verbatim>\<open>readLineHidden\<close> on an
  idle session, the callback is called with the error, and whatever the callback is, the
  data listener stays attached, the session is not paused, the flow of the stream is as
  the reader left it and (for the hidden reader) the terminal stays in raw mode. Chunks
  that arrive afterwards are processed by the same read, which calls back a second time.
\<close>

theorem read_error_keeps_listening:
  assumes "idle w"
      and "LF \<notin> set l" and "CR \<notin> set l"
      and "\<forall>c\<in>set cs. c \<notin> set terminators \<and> c \<notin> set interrupts"
      and "t \<in> set terminators"
  shows "calls (emit_error e (readLine (LUser n) w)) = calls w @ [LineCall n (Inl e)]
       \<and> data_listeners (emit_error e (readLine k w)) = [length (reads w)]
       \<and> \<not> paused (emit_error e (readLine k w))
       \<and> in_flowing (emit_error e (readLine k w)) = in_flowing (readLine k w)
       \<and> calls (emit_data (l @ [LF]) (emit_error e (readLine (LUser n) w)))
           = calls w @ [LineCall n (Inl e), LineCall n (Inr (trim l))]
       \<and> calls (emit_error e (readLineHidden (LUser n) w)) = calls w @ [LineCall n (Inl e)]
       \<and> data_listeners (emit_error e (readLineHidden k w)) = [length (reads w)]
       \<and> \<not> paused (emit_error e (readLineHidden k w))
       \<and> in_flowing (emit_error e (readLineHidden k w)) = in_flowing (readLineHidden k w)
       \<and> rawMode (emit_error e (readLineHidden k w))
       \<and> calls (run (map Data cs @ [Data t]) (emit_error e (readLineHidden (LUser n) w)))
           = calls w @ [LineCall n (Inl e), LineCall n (Inr (trim (concat cs)))]"
proof -
  let ?w' = "w\<lparr>calls := calls w @ [LineCall n (Inl e)]\<rparr>"
  obtain c f where ck: "invoke_line k (Inl e) (readLine k w) = (readLine k w)\<lparr>calls := c, frames := f\<rparr>"
    using invoke_line_error_frame by blast
  obtain c' f' where hk:
    "invoke_line k (Inl e) (readLineHidden k w) = (readLineHidden k w)\<lparr>calls := c', frames := f'\<rparr>"
    using invoke_line_error_frame by blast
  have i: "idle ?w'" using assms(1) by (simp add: idle_calls_upd)
  have cu: "emit_error e (readLine (LUser n) w) = readLine (LUser n) ?w'"
    using assms(1) by (simp add: emit_error_readLine readLine_calls_upd readLine_idle)
  have hu: "emit_error e (readLineHidden (LUser n) w) = readLineHidden (LUser n) ?w'"
    using assms(1) by (simp add: emit_error_readLineHidden readLineHidden_calls_upd readLineHidden_idle)
  have 1: "calls (emit_error e (readLine (LUser n) w)) = calls w @ [LineCall n (Inl e)]"
    by (simp add: cu readLine_idle(7) [OF i])
  have 2: "data_listeners (emit_error e (readLine k w)) = [length (reads w)]"
    "\<not> paused (emit_error e (readLine k w))"
    "in_flowing (emit_error e (readLine k w)) = in_flowing (readLine k w)"
    using assms(1) by (simp_all add: emit_error_readLine ck readLine_idle)
  have 3: "calls (emit_data (l @ [LF]) (emit_error e (readLine (LUser n) w)))
           = calls w @ [LineCall n (Inl e), LineCall n (Inr (trim l))]"
    by (simp add: cu cooked_line [OF i assms(2,3)])
  have 4: "calls (emit_error e (readLineHidden (LUser n) w)) = calls w @ [LineCall n (Inl e)]"
    by (simp add: hu readLineHidden_idle(8) [OF i])
  have 5: "data_listeners (emit_error e (readLineHidden k w)) = [length (reads w)]"
    "\<not> paused (emit_error e (readLineHidden k w))"
    "in_flowing (emit_error e (readLineHidden k w)) = in_flowing (readLineHidden k w)"
    "rawMode (emit_error e (readLineHidden k w))"
    using assms(1) by (simp_all add: emit_error_readLineHidden hk readLineHidden_idle)
  have 6: "calls (run (map Data cs @ [Data t]) (emit_error e (readLineHidden (LUser n) w)))
           = calls w @ [LineCall n (Inl e), LineCall n (Inr (trim (concat cs)))]"
    by (simp add: hu hidden_line [OF i assms(4,5)])
  from 1 2 3 4 5 6 show ?thesis by simp
qed

theorem read_error_keeps_listening_witness:
  "calls (emit_data (js ''yes\<newline>'') (emit_error (StreamError 5) (readLine (LUser 1) session0)))
     = [LineCall 1 (Inl (StreamError 5)), LineCall 1 (Inr (js ''yes''))]
   \<and> rawMode (emit_error (StreamError 5) (readLineHidden (LUser 1) session0))
   \<and> calls (run [Data (js ''pw''), Data [CR]] (emit_error (StreamError 5) (readLineHidden (LUser 1) session0)))
     = [LineCall 1 (Inl (StreamError 5)), LineCall 1 (Inr (js ''pw''))]"
  using read_error_keeps_listening [of session0 "js ''yes''" "[js ''pw'']" "[CR]" "StreamError 5" 1 "LUser 1"]
  by (simp add: idle_def session0_def start_def world0_def terminators_def interrupts_def js_def
      trim_def isWhiteSpace_def)

section \<open>Validation failures\<close>

text \<open>
  C4. At the prompt of a field on an idle session, let any number of lines be typed that
  fail the field's validator (after default substitution). Then the callback has not been
  called, with a value or with an error; the process runs and exactly one read is pending;
  the same prompt was written once more after every failed line; and every failed line
  logged an error and the field's warning, if it has one. The first line that passes
  resolves the field with its value. The validator is applied in the same way whether it
  is a pattern or a predicate.
\<close>

theorem validation_failure_reprompts:
  assumes "idle w"
      and "\<forall>l\<in>set ls. typable p l \<and> \<not> accepts p (answer p l)"
      and "typable p l'" and "accepts p (answer p l')"
  shows "calls (run (concat (map (typed p) ls)) (getInput p (LUser n) w)) = calls w
       \<and> halted (run (concat (map (typed p) ls)) (getInput p (LUser n) w)) = None
       \<and> length (data_listeners (run (concat (map (typed p) ls)) (getInput p (LUser n) w))) = 1
       \<and> out (run (concat (map (typed p) ls)) (getInput p (LUser n) w))
           = out w @ concat (map (\<lambda>l. echo p) ls) @ [Write (prompt_msg p)]
       \<and> logged (run (concat (map (typed p) ls)) (getInput p (LUser n) w))
           = logged w @ concat (map (\<lambda>l. map (Pair Help) (prop_help p) @ invalid_log p) ls)
             @ map (Pair Help) (prop_help p)
       \<and> calls (run (concat (map (typed p) ls) @ typed p l') (getInput p (LUser n) w))
           = calls w @ [LineCall n (Inr (answer p l'))]
       \<and> (\<forall>f. prop_validator p = Some (Pattern f) \<or> prop_validator p = Some (Predicate f)
             \<longrightarrow> accepts p (answer p l') = f (answer p l'))"
proof -
  let ?w' = "retried p (LUser n) ls w"
  from retries [OF assms(1,2)]
  have r: "run (concat (map (typed p) ls)) (getInput p (LUser n) w) = getInput p (LUser n) ?w'"
    and i: "idle ?w'" by simp_all
  have "run (concat (map (typed p) ls) @ typed p l') (getInput p (LUser n) w)
      = invoke_line (LUser n) (Inr (answer p l'))
          (logger Input (yellow (answer p l')) (answered p (LUser n) l' ?w'))"
    by (simp add: run_append r accept_step [OF i assms(3,4)])
  then have "calls (run (concat (map (typed p) ls) @ typed p l') (getInput p (LUser n) w))
           = calls w @ [LineCall n (Inr (answer p l'))]"
    by (simp add: logger_def answered_simps retried_simps)
  moreover have "\<forall>f. prop_validator p = Some (Pattern f) \<or> prop_validator p = Some (Predicate f)
             \<longrightarrow> accepts p (answer p l') = f (answer p l')"
    by (auto simp add: accepts_def)
  ultimately show ?thesis
    by (simp add: r getInput_simps [OF i] retried_simps)
qed

theorem validation_failure_reprompts_witness:
  "calls (run (concat (map (typed confirm_field) [js ''no'', js ''maybe''])) (getInput confirm_field (LUser 1) session0)) = []
   \<and> logged (run (concat (map (typed confirm_field) [js ''no'', js ''maybe''])) (getInput confirm_field (LUser 1) session0))
      = [(ErrorLevel, js ''Invalid input for '' @ grey (js ''confirm'')), (ErrorLevel, js ''Type yes''),
         (ErrorLevel, js ''Invalid input for '' @ grey (js ''confirm'')), (ErrorLevel, js ''Type yes'')]
   \<and> calls (run (concat (map (typed confirm_field) [js ''no'', js ''maybe'']) @ typed confirm_field (js ''yes''))
        (getInput confirm_field (LUser 1) session0)) = [LineCall 1 (Inr (js ''yes''))]
   \<and> calls (run (concat (map (typed port_field) [js ''http''])) (getInput port_field (LUser 1) session0)) = []
   \<and> calls (run (concat (map (typed port_field) [js ''http'']) @ typed port_field (js ''5432''))
        (getInput port_field (LUser 1) session0)) = [LineCall 1 (Inr (js ''5432''))]"
  using validation_failure_reprompts [of session0 "[js ''no'', js ''maybe'']" confirm_field "js ''yes''" 1]
    validation_failure_reprompts [of session0 "[js ''http'']" port_field "js ''5432''" 1]
  by (simp add: idle_def session0_def start_def world0_def confirm_field_def port_field_def
      typable_def accepts_def answer_def with_default_def trim_def isWhiteSpace_def js_def
      invalid_log_def name_grey_def)

section \<open>Default substitution\<close>




section \<open>The batch driver\<close>

text \<open>
  C7 at the fields \<^verbatim>\<open>a\<close> and \<^verbatim>\<open>b\<close>, when the stream emits an error at the prompt of
  \<^verbatim>\<open>a\<close> and then the line \<^verbatim>\<open>x\<close>. The error calls the callback with the error, and no
  prompt for \<^verbatim>\<open>b\<close> is written: so far the sequence is aborted. But the reader has left
  its data listener attached, so the line \<^verbatim>\<open>x\<close> is taken as the answer to \<^verbatim>\<open>a\<close>: it is
  logged and stored in the result record, the series moves on, the prompt for \<^verbatim>\<open>b\<close> is
  written and a new read is attached. The remaining sequence is not aborted.
\<close>

theorem get_error_then_line:
  "calls (run [Error (StreamError 1)]
       (get ascii_lower (Many [Bare (js ''a''), Bare (js ''b'')]) (RUser 1) session0))
     = [ResCall 1 (Inl (StreamError 1))]
   \<and> out (run [Error (StreamError 1)]
       (get ascii_lower (Many [Bare (js ''a''), Bare (js ''b'')]) (RUser 1) session0))
     = [Write (prompt_msg (Bare (js ''a'')))]
   \<and> data_listeners (run [Error (StreamError 1)]
       (get ascii_lower (Many [Bare (js ''a''), Bare (js ''b'')]) (RUser 1) session0)) = [0]
   \<and> out (run [Error (StreamError 1), Data (js ''x\<newline>'')]
       (get ascii_lower (Many [Bare (js ''a''), Bare (js ''b'')]) (RUser 1) session0))
     = [Write (prompt_msg (Bare (js ''a''))), Write (prompt_msg (Bare (js ''b'')))]
   \<and> logged (run [Error (StreamError 1), Data (js ''x\<newline>'')]
       (get ascii_lower (Many [Bare (js ''a''), Bare (js ''b'')]) (RUser 1) session0))
     = [(Input, yellow (js ''x''))]
   \<and> data_listeners (run [Error (StreamError 1), Data (js ''x\<newline>'')]
       (get ascii_lower (Many [Bare (js ''a''), Bare (js ''b'')]) (RUser 1) session0)) = [1]
   \<and> result (frames (run [Error (StreamError 1), Data (js ''x\<newline>'')]
       (get ascii_lower (Many [Bare (js ''a''), Bare (js ''b'')]) (RUser 1) session0)) ! 0)
     = [(js ''a'', js ''x'')]"
  by (simp add: run_def js_def get_def normalize_def ascii_lower_def Let_def session0_def
      start_def world0_def getInput_def stdout_write_def readLine_def resume_def attach_def
      emit_data_def emit_error_def error_listener_def data_listener_def readLine_data_def
      indexOf_def substr_def trim_def isWhiteSpace_def pause_def with_default_def accepts_def
      logger_def inherited_def object_prototype_names_def proto_def store_def)

section \<open>The result assembler: where the target goes\<close>

text \<open>
  C9. The properties prompted for are those for which \<^verbatim>\<open>typeof obj[prop]\<close> is undefined,
  inherited members counted as defined; \<open>fs\<close> are the fields \<^verbatim>\<open>get\<close> makes of them. When
  every requested property is already defined on the target, \<^verbatim>\<open>addProperties\<close> calls back
  at once with the target as the first and only argument. Otherwise it prompts: when all
  the fields are answered and the merge succeeds, it calls back with \<^verbatim>\<open>null\<close> and the
  merged target; when the stream emits an error before that, it calls back with the error
  as the only argument.
\<close>

theorem addProperties_callback_arguments:
  assumes "idle w"
      and "map (normalize toLowerCase (properties w))
             (map Bare (filter (typeof_undefined obj) props)) = map Some fs"
      and "length ls \<le> length fs"
      and "\<forall>(f, l)\<in>set (zip fs ls). typable f l \<and> accepts f (answer f l)"
  shows "(fs = [] \<longrightarrow>
            addProperties toLowerCase obj props (OUser n) w = w\<lparr>calls := calls w @ [ObjCall n (ObjOnly obj)]\<rparr>)
       \<and> (fs \<noteq> [] \<and> length ls = length fs \<and> merge (Obj obj) (record_of (zip fs ls)) = Done (Obj obj') \<longrightarrow>
            calls (run (typed_all (zip fs ls)) (addProperties toLowerCase obj props (OUser n) w))
              = calls w @ [ObjCall n (NullObj obj')])
       \<and> (length ls < length fs \<longrightarrow>
            calls (emit_error e (run (typed_all (zip fs ls)) (addProperties toLowerCase obj props (OUser n) w)))
              = calls w @ [ObjCall n (ErrOnly e)])"
proof (cases "fs = []")
  case True
  with assms(2,3) show ?thesis by (simp add: addProperties_def Let_def)
next
  case False
  let ?m = "Many (map Bare (filter (typeof_undefined obj) props))"
  let ?cb = "RAddProps obj (OUser n)"
  from False assms(2) have a: "addProperties toLowerCase obj props (OUser n) w = get toLowerCase ?m ?cb w"
    by (auto simp add: addProperties_def Let_def)
  from assms(2) have fs: "map (normalize toLowerCase (properties w)) (case ?m of Many vs \<Rightarrow> vs | One v \<Rightarrow> [v]) = map Some fs"
    by simp
  from get_run [OF assms(1) fs False assms(3,4), of ?cb]
  obtain w' where w': "idle w'" "calls w' = calls w"
      "length (frames w) < length (frames w')" "live (frames w' ! length (frames w))"
    and r: "run (typed_all (zip fs ls)) (get toLowerCase ?m ?cb w) =
             (if length ls = length fs then invoke_res ?cb (Inr (record_of (zip fs ls))) w'
              else getInput (fs ! length ls)
                     (LGetItem (length (frames w)) (fs ! length ls) ?cb) w')"
    by blast
  show ?thesis
  proof (cases "length ls = length fs")
    case True
    with r w' False show ?thesis by (simp add: a)
  next
    case False
    with r w' \<open>fs \<noteq> []\<close> show ?thesis
      by (simp add: a getInput_simps error_in_series Let_def)
  qed
qed

theorem addProperties_callback_arguments_witness:
  "addProperties ascii_lower [] [js ''toString''] (OUser 1) session0
     = session0\<lparr>calls := [ObjCall 1 (ObjOnly [])]\<rparr>
   \<and> addProperties ascii_lower [(js ''db'', Str (js ''x''))] [js ''db''] (OUser 1) session0
     = session0\<lparr>calls := [ObjCall 1 (ObjOnly [(js ''db'', Str (js ''x''))])]\<rparr>
   \<and> calls (run [Data (js ''localhost\<newline>'')]
        (addProperties ascii_lower [] [js ''db.host''] (OUser 1) session0))
     = [ObjCall 1 (NullObj [(js ''db'', Obj [(js ''host'', Str (js ''localhost''))])])]
   \<and> calls (run [Data (js ''A\<newline>''), Data (js ''\<newline>'')]
        (addProperties ascii_lower [] [js ''1.x'', js ''1''] (OUser 1) session0))
     = [ObjCall 1 (NullObj [(js ''1'', Obj [(js ''x'', Str (js ''A''))])])]
   \<and> calls (emit_error (StreamError 2) (addProperties ascii_lower [] [js ''db.host''] (OUser 1) session0))
     = [ObjCall 1 (ErrOnly (StreamError 2))]"
  using addProperties_callback_arguments [of session0 ascii_lower
      "[]" "[js ''toString'']" "[]" "[]" 1 "[]" "StreamError 2"]
    addProperties_callback_arguments [of session0 ascii_lower
      "[(js ''db'', Str (js ''x''))]" "[js ''db'']" "[]" "[]" 1 "[]" "StreamError 2"]
    addProperties_callback_arguments [of session0 ascii_lower
      "[]" "[js ''db.host'']" "[Bare (js ''db.host'')]" "[js ''localhost'']" 1
      "[(js ''db'', Obj [(js ''host'', Str (js ''localhost''))])]" "StreamError 2"]
    addProperties_callback_arguments [of session0 ascii_lower
      "[]" "[js ''1.x'', js ''1'']" "[Bare (js ''1.x''), Bare (js ''1'')]" "[js ''A'', []]" 1
      "[(js ''1'', Obj [(js ''x'', Str (js ''A''))])]" "StreamError 2"]
    addProperties_callback_arguments [of session0 ascii_lower
      "[]" "[js ''db.host'']" "[Bare (js ''db.host'')]" "[]" 1 "[]" "StreamError 2"]
  by (simp add: idle_def session0_def start_def world0_def typable_def
      accepts_def answer_def with_default_def trim_def isWhiteSpace_def js_def normalize_def
      ascii_lower_def typed_all_def typed_def record_of_def prop_get_def run_Nil
      typeof_undefined_def inherited_def object_prototype_names_def proto_def store_def
      merge_def object_keys_def array_index_def decimal_def Let_def)

section \<open>The result assembler: which properties are prompted for\<close>

text \<open>
  C2 at the target \<^verbatim>\<open>{db: {host: "x"}}\<close> and the property \<^verbatim>\<open>"db.host"\<close>. The filter
  looks the name up as one key, \<^verbatim>\<open>obj["db.host"]\<close>, which is undefined although the
  path \<^verbatim>\<open>db\<close>, \<^verbatim>\<open>host\<close> holds \<^verbatim>\<open>"x"\<close>. So the property is not skipped: the prompt is
  written and a read is pending, the callback is not called at once, and when \<^verbatim>\<open>y\<close> is
  typed the merge, which does split the name at the dot, replaces \<^verbatim>\<open>"x"\<close> by \<^verbatim>\<open>"y"\<close>.
\<close>

theorem addProperties_nested_defined:
  "prop_get db_host_x (js ''db.host'') = Undefined
   \<and> path_get (Obj db_host_x) (split_on 0x2E (js ''db.host'')) = Str (js ''x'')
   \<and> out (addProperties ascii_lower db_host_x [js ''db.host''] (OUser 1) session0)
       = [Write (prompt_msg (Bare (js ''db.host'')))]
   \<and> data_listeners (addProperties ascii_lower db_host_x [js ''db.host''] (OUser 1) session0) = [0]
   \<and> calls (addProperties ascii_lower db_host_x [js ''db.host''] (OUser 1) session0) = []
   \<and> calls (emit_data (js ''y\<newline>'') (addProperties ascii_lower db_host_x [js ''db.host''] (OUser 1) session0))
       = [ObjCall 1 (NullObj [(js ''db'', Obj [(js ''host'', Str (js ''y''))])])]"
  by (simp add: db_host_x_def prop_get_def js_def addProperties_def get_def normalize_def
      ascii_lower_def Let_def session0_def start_def world0_def getInput_def stdout_write_def
      readLine_def resume_def attach_def emit_data_def data_listener_def readLine_data_def
      indexOf_def substr_def trim_def isWhiteSpace_def pause_def with_default_def accepts_def
      logger_def typeof_undefined_def inherited_def object_prototype_names_def proto_def
      store_def merge_def object_keys_def array_index_def)

section \<open>The result assembler: what the merge changes\<close>




end
